theory Spec2Isabelle
  imports Complex_Main "HOL-Library.Word"
begin

text \<open>
  An embedding of \<^verbatim>\<open>src/App.tsx\<close>, the page that sends a file from one browser to another
  over a WebRTC data channel after the two have met through a record in Firestore.  Every
  function of the component is a function on an explicit state of the page; an event of
  the browser (a click, a snapshot of the record, a message on the channel, a timer) is one
  application of the handler it triggers, and handlers run one after the other.  The
  transport, the record store and the built-in functions of the language appear with the
  behaviour the handlers rely on.
\<close>

section \<open>JavaScript numbers\<close>

text \<open>
  A JavaScript Number is an IEEE 754 double.  The model keeps the three special values and
  carries a finite double as the real number it denotes; the sign of zero is not kept.
  Every arithmetic result is rounded to the nearest double (\<open>fl\<close>), ties to the even
  significand, with overflow to infinity and gradual underflow.
\<close>

datatype jsnum = NaN | PosInf | NegInf | Fin real

text \<open>\<open>logn b n\<close> is the integer logarithm \<open>\<lfloor>log\<^sub>b n\<rfloor>\<close> of a positive natural number,
  \<open>flog b a\<close> the one of a positive real, and \<open>pow b e\<close> the power \<open>b\<^sup>e\<close> for an integer
  exponent.\<close>

fun logn :: "nat \<Rightarrow> nat \<Rightarrow> nat" where
  "logn b n = (if b < 2 \<or> n < b then 0 else Suc (logn b (n div b)))"

declare logn.simps [simp del]

definition flog :: "nat \<Rightarrow> real \<Rightarrow> int" where
  "flog b a =
     (if 1 \<le> a then int (logn b (nat \<lfloor>a\<rfloor>))
      else - int (if \<lceil>1 / a\<rceil> \<le> 1 then 0 else Suc (logn b (nat (\<lceil>1 / a\<rceil> - 1)))))"

definition pow :: "nat \<Rightarrow> int \<Rightarrow> real" where
  "pow b e = (if 0 \<le> e then of_nat b ^ nat e else 1 / of_nat b ^ nat (- e))"

definition round_half_even :: "real \<Rightarrow> int" where
  "round_half_even q =
     (let f = \<lfloor>q\<rfloor>; r = q - of_int f
      in if r < 1 / 2 then f else if 1 / 2 < r then f + 1
         else if even f then f else f + 1)"

text \<open>Rounding of a real to a double: 53 significant bits, least exponent \<open>-1022\<close>,
  values from \<open>2\<^sup>1\<^sup>0\<^sup>2\<^sup>4\<close> on become infinite.\<close>

definition fl :: "real \<Rightarrow> jsnum" where
  "fl x =
     (if x = 0 then Fin 0
      else let a = \<bar>x\<bar>;
               e = max (flog 2 a) (- 1022);
               u = pow 2 (e - 52);
               y = of_int (round_half_even (a / u)) * u
           in if 2 ^ 1024 \<le> y then (if 0 < x then PosInf else NegInf)
              else Fin (sgn x * y))"

text \<open>The operators \<^verbatim>\<open>/\<close> and \<^verbatim>\<open>*\<close> on Numbers, and \<^verbatim>\<open>Math.round\<close> (nearest integer, a tie
  goes up; the special values are returned as they are).\<close>

fun num_div :: "jsnum \<Rightarrow> jsnum \<Rightarrow> jsnum" where
  "num_div NaN _ = NaN"
| "num_div _ NaN = NaN"
| "num_div (Fin x) (Fin y) =
     (if y = 0 then (if x = 0 then NaN else if 0 < x then PosInf else NegInf)
      else fl (x / y))"
| "num_div (Fin x) _ = Fin 0"
| "num_div PosInf (Fin y) = (if y < 0 then NegInf else PosInf)"
| "num_div NegInf (Fin y) = (if y < 0 then PosInf else NegInf)"
| "num_div _ _ = NaN"

fun num_mul :: "jsnum \<Rightarrow> jsnum \<Rightarrow> jsnum" where
  "num_mul NaN _ = NaN"
| "num_mul _ NaN = NaN"
| "num_mul (Fin x) (Fin y) = fl (x * y)"
| "num_mul (Fin x) PosInf = (if x = 0 then NaN else if 0 < x then PosInf else NegInf)"
| "num_mul (Fin x) NegInf = (if x = 0 then NaN else if 0 < x then NegInf else PosInf)"
| "num_mul PosInf (Fin y) = (if y = 0 then NaN else if 0 < y then PosInf else NegInf)"
| "num_mul NegInf (Fin y) = (if y = 0 then NaN else if 0 < y then NegInf else PosInf)"
| "num_mul PosInf PosInf = PosInf"
| "num_mul NegInf NegInf = PosInf"
| "num_mul _ _ = NegInf"

fun Math_round :: "jsnum \<Rightarrow> jsnum" where
  "Math_round (Fin x) = Fin (of_int \<lfloor>x + 1 / 2\<rfloor>)"
| "Math_round v = v"

text \<open>The percentage shown while downloading, \<^verbatim>\<open>App.tsx\<close> line 336:
  \<^verbatim>\<open>Math.round((receivedFileSize.current / fileMetadata.current!.size) * 100)\<close>.\<close>

definition progress :: "jsnum \<Rightarrow> jsnum \<Rightarrow> jsnum" where
  "progress receivedFileSize sz = Math_round (num_mul (num_div receivedFileSize sz) (Fin 100))"

subsection \<open>Number to string\<close>

text \<open>
  \<^verbatim>\<open>Number.prototype.toString()\<close> prints the shortest decimal \<open>s \<times> 10\<^sup>n\<^sup>-\<^sup>k\<close> with \<open>k\<close> digits
  that rounds to the number (ECMAScript, Number::toString): \<open>digit_candidates\<close> lists the
  \<open>k\<close>-digit decimals next to \<open>x\<close> that round to \<open>x\<close>, \<open>closest\<close> picks the nearer one (the even
  one on a tie), and \<open>shortest_digits\<close> tries \<open>k = 1, 2, \<dots>\<close>; 17 digits always suffice for
  a double.
\<close>

definition digit_candidates :: "real \<Rightarrow> nat \<Rightarrow> (int \<times> int) list" where
  "digit_candidates x k =
     (let n0 = flog 10 x + 1; lo = \<lfloor>x * pow 10 (int k - n0)\<rfloor>
      in filter (\<lambda>(n, s). 10 ^ (k - 1) \<le> s \<and> s < 10 ^ k
                           \<and> fl (of_int s * pow 10 (n - int k)) = Fin x)
           (map (\<lambda>s. if s = 10 ^ k then (n0 + 1, 10 ^ (k - 1)) else (n0, s)) [lo, lo + 1]))"

fun closest :: "real \<Rightarrow> nat \<Rightarrow> (int \<times> int) list \<Rightarrow> (int \<times> int) option" where
  "closest x k [] = None"
| "closest x k [c] = Some c"
| "closest x k ((n1, s1) # (n2, s2) # _) =
     (let d1 = \<bar>of_int s1 * pow 10 (n1 - int k) - x\<bar>;
          d2 = \<bar>of_int s2 * pow 10 (n2 - int k) - x\<bar>
      in if d1 < d2 then Some (n1, s1) else if d2 < d1 then Some (n2, s2)
         else if even s1 then Some (n1, s1) else Some (n2, s2))"

fun shortest_digits :: "real \<Rightarrow> nat \<Rightarrow> nat \<Rightarrow> (int \<times> nat \<times> int) option" where
  "shortest_digits x 0 k = None"
| "shortest_digits x (Suc fuel) k =
     (case closest x k (digit_candidates x k) of
        Some (n, s) \<Rightarrow> Some (n, k, s)
      | None \<Rightarrow> shortest_digits x fuel (Suc k))"

fun digits_of :: "nat \<Rightarrow> nat \<Rightarrow> string" where
  "digits_of 0 s = []"
| "digits_of (Suc k) s = digits_of k (s div 10) @ [''0123456789'' ! (s mod 10)]"

definition decimal :: "nat \<Rightarrow> string" where
  "decimal m = digits_of (Suc (logn 10 m)) m"

definition pos_toString :: "real \<Rightarrow> string" where
  "pos_toString x =
     (case shortest_digits x 17 1 of
        None \<Rightarrow> []
      | Some (n, k, s) \<Rightarrow>
          (let ds = digits_of k (nat s) in
           if int k \<le> n \<and> n \<le> 21 then ds @ replicate (nat (n - int k)) CHR ''0''
           else if 0 < n \<and> n \<le> 21 then take (nat n) ds @ ''.'' @ drop (nat n) ds
           else if - 6 < n \<and> n \<le> 0 then ''0.'' @ replicate (nat (- n)) CHR ''0'' @ ds
           else (if k = 1 then ds else take 1 ds @ ''.'' @ drop 1 ds)
                @ ''e'' @ (if 0 \<le> n - 1 then ''+'' else ''-'') @ decimal (nat \<bar>n - 1\<bar>)))"

fun Number_toString :: "jsnum \<Rightarrow> string" where
  "Number_toString NaN = ''NaN''"
| "Number_toString PosInf = ''Infinity''"
| "Number_toString NegInf = ''-Infinity''"
| "Number_toString (Fin x) =
     (if x = 0 then ''0'' else if x < 0 then ''-'' @ pos_toString (- x) else pos_toString x)"

text \<open>\<^verbatim>\<open>String.prototype.substring(start, end)\<close>: both indices are clamped to the length and
  swapped when out of order.\<close>

definition substring :: "string \<Rightarrow> nat \<Rightarrow> nat \<Rightarrow> string" where
  "substring s start end =
     (let finalStart = min start (length s); finalEnd = min end (length s);
          from = min finalStart finalEnd; to = max finalStart finalEnd
      in take (to - from) (drop from s))"

text \<open>\<^verbatim>\<open>Math.random()\<close> yields a double \<open>r\<close> with \<open>0 \<le> r < 1\<close>; the share code of
  \<^verbatim>\<open>handleFileChange\<close> (line 168) is \<^verbatim>\<open>Math.random().toString().substring(2, 8)\<close>.\<close>

definition Math_random_outcome :: "real \<Rightarrow> bool" where
  "Math_random_outcome r \<longleftrightarrow> 0 \<le> r \<and> r < 1 \<and> fl r = Fin r"

definition newShareCode :: "real \<Rightarrow> string" where
  "newShareCode r = substring (Number_toString (Fin r)) 2 8"

section \<open>Values that travel over the channel\<close>

type_synonym byte = "8 word"
type_synonym ArrayBuffer = "byte list"

text \<open>Run-time values as \<^verbatim>\<open>JSON.parse\<close> produces them, and \<^verbatim>\<open>undefined\<close> for an absent
  property.  The keys of an object are distinct.\<close>

datatype jsvalue =
    JUndefined
  | JNull
  | JBool bool
  | JNum jsnum
  | JStr string
  | JArr "jsvalue list"
  | JObj "(string \<times> jsvalue) list"

datatype error = TypeError

text \<open>Reading the property \<^verbatim>\<open>name\<close> or \<^verbatim>\<open>size\<close> of a value: a \<^verbatim>\<open>TypeError\<close> on
  \<^verbatim>\<open>null\<close> and \<^verbatim>\<open>undefined\<close>, the own property of an object, and \<^verbatim>\<open>undefined\<close> in every
  other case (no prototype defines these two names).\<close>

fun get_field :: "jsvalue \<Rightarrow> string \<Rightarrow> error + jsvalue" where
  "get_field JUndefined p = Inl TypeError"
| "get_field JNull p = Inl TypeError"
| "get_field (JObj kvs) p = Inr (case map_of kvs p of Some v \<Rightarrow> v | None \<Rightarrow> JUndefined)"
| "get_field v p = Inr JUndefined"

text \<open>The conversion to a string that a template literal applies.  A parsed object whose
  own property \<^verbatim>\<open>toString\<close> shadows the inherited method cannot be converted
  (\<^verbatim>\<open>TypeError\<close>); an array joins its elements with commas, \<^verbatim>\<open>null\<close> and \<^verbatim>\<open>undefined\<close>
  elements printing as the empty string.\<close>

fun ToString :: "jsvalue \<Rightarrow> error + string"
  and join :: "jsvalue list \<Rightarrow> error + string" where
  "ToString JUndefined = Inr ''undefined''"
| "ToString JNull = Inr ''null''"
| "ToString (JBool b) = Inr (if b then ''true'' else ''false'')"
| "ToString (JNum n) = Inr (Number_toString n)"
| "ToString (JStr s) = Inr s"
| "ToString (JArr xs) = join xs"
| "ToString (JObj kvs) =
     (if ''toString'' \<in> set (map fst kvs) then Inl TypeError else Inr ''[object Object]'')"
| "join [] = Inr []"
| "join (x # xs) =
     (case (if x = JUndefined \<or> x = JNull then Inr [] else ToString x) of
        Inl e \<Rightarrow> Inl e
      | Inr s \<Rightarrow> (case join xs of
                    Inl e \<Rightarrow> Inl e
                  | Inr r \<Rightarrow> Inr (if xs = [] then s else s @ '','' @ r)))"

text \<open>The conversion to a Number that the operator \<^verbatim>\<open>/\<close> applies to its operands.  The
  conversion of a string (the built-in \<open>StringToNumber\<close>) is a parameter.\<close>

fun ToNumber :: "(string \<Rightarrow> jsnum) \<Rightarrow> jsvalue \<Rightarrow> error + jsnum" where
  "ToNumber StringToNumber JUndefined = Inr NaN"
| "ToNumber StringToNumber JNull = Inr (Fin 0)"
| "ToNumber StringToNumber (JBool b) = Inr (Fin (if b then 1 else 0))"
| "ToNumber StringToNumber (JNum n) = Inr n"
| "ToNumber StringToNumber (JStr s) = Inr (StringToNumber s)"
| "ToNumber StringToNumber v =
     (case ToString v of Inl e \<Rightarrow> Inl e | Inr s \<Rightarrow> Inr (StringToNumber s))"

text \<open>
  A message delivered by the data channel.  A string message is represented by what
  \<^verbatim>\<open>JSON.parse\<close> makes of it: \<open>Text None\<close> when \<^verbatim>\<open>JSON.parse\<close> throws a \<^verbatim>\<open>SyntaxError\<close>,
  \<open>Text (Some v)\<close> when it returns \<open>v\<close>.  \<open>Other\<close> is a payload that is neither a string
  nor an \<^verbatim>\<open>ArrayBuffer\<close>.
\<close>

datatype message = Text "jsvalue option" | Binary ArrayBuffer | Other

section \<open>Files and chunking\<close>

record File =
  name :: string
  content :: ArrayBuffer

definition file_size :: "File \<Rightarrow> nat" where
  "file_size f = length (content f)"

text \<open>\<^verbatim>\<open>Blob.slice(start, end)\<close> clamps both positions to the size of the blob.\<close>

definition blob_slice :: "ArrayBuffer \<Rightarrow> nat \<Rightarrow> nat \<Rightarrow> ArrayBuffer" where
  "blob_slice b start end =
     (let relativeStart = min start (length b); relativeEnd = min end (length b)
      in take (relativeEnd - relativeStart) (drop relativeStart b))"

definition CHUNK_SIZE :: nat where
  "CHUNK_SIZE = 64 * 1024"

text \<open>
  The read loop of \<^verbatim>\<open>sendFileInChunks\<close> (lines 283 to 313): \<^verbatim>\<open>readSlice(o)\<close> reads
  \<^verbatim>\<open>fileToSend.slice(o, o + CHUNK_SIZE)\<close>; \<^verbatim>\<open>reader.onload\<close> sends the result, advances
  \<^verbatim>\<open>offset\<close> by its length and reads again while \<^verbatim>\<open>offset < fileToSend.size\<close>.  The result
  of a read is an \<^verbatim>\<open>ArrayBuffer\<close> object, which is truthy also when it is empty.  The chunk
  size is a parameter here; the loop need not end when it is 0, so the function is partial.
  \<open>sent\<close> collects the buffers handed to \<^verbatim>\<open>send\<close>, in order.
\<close>

partial_function (option) readSlice ::
  "nat \<Rightarrow> File \<Rightarrow> nat \<Rightarrow> ArrayBuffer list \<Rightarrow> ArrayBuffer list option" where
  "readSlice chunk_size fileToSend off sent =
     (let result = blob_slice (content fileToSend) off (off + chunk_size);
          sent' = sent @ [result];
          offset = off + length result
      in if offset < file_size fileToSend
         then readSlice chunk_size fileToSend offset sent'
         else Some sent')"

text \<open>\<^verbatim>\<open>new Blob(receivedChunks.current)\<close> concatenates the chunks in the order of receipt.\<close>

definition Blob :: "ArrayBuffer list \<Rightarrow> ArrayBuffer" where
  "Blob chunks = concat chunks"

section \<open>The application state\<close>

text \<open>
  The rendezvous record is a Firestore document with four optional fields; a session
  description and a network candidate are opaque values of the transport.
\<close>

type_synonym description = string
type_synonym candidate = string

record rdoc =
  offer :: "description option"
  offerCandidates :: "candidate list option"
  answer :: "description option"
  answerCandidates :: "candidate list option"

text \<open>
  Calls into the transport, the record store and the browser are recorded in a trace.
\<close>

datatype effect =
    PC_new
  | PC_close
  | PC_createDataChannel string
  | PC_createOffer
  | PC_createAnswer
  | PC_setLocalDescription description
  | PC_setRemoteDescription description
  | PC_addIceCandidate candidate
  | DC_close
  | DC_send message
  | DB_setDoc string
  | DB_updateDoc string
  | DB_deleteDoc string
  | Download string ArrayBuffer

text \<open>
  Callbacks are closures.  Every render of \<^verbatim>\<open>App\<close> binds the constant \<^verbatim>\<open>shareCode\<close> to the
  value the state has at that render, and the functions defined in the render
  (\<^verbatim>\<open>handleCancel\<close>, \<^verbatim>\<open>handleFileChange\<close>, \<^verbatim>\<open>sendFileInChunks\<close>) see that constant, not the
  state cell that \<^verbatim>\<open>setShareCode\<close> writes.  A stored callback therefore carries the
  \<^verbatim>\<open>shareCode\<close> of the render that created it:
  \<^item> \<open>Open_send f c\<close> is the \<^verbatim>\<open>onopen\<close> handler of line 161, which calls
    \<^verbatim>\<open>sendFileInChunks(selectedFile)\<close>;
  \<^item> \<open>Open_ready\<close> is the \<^verbatim>\<open>onopen\<close> handler of line 226;
  \<^item> \<open>Sender_cleanup c\<close> is the timer callback of lines 297 to 303;
  \<^item> \<open>Receiver_cleanup\<close> is the timer callback of lines 354 to 358;
  \<^item> \<open>Initiator_listener code\<close> and \<open>Responder_listener code\<close> are the snapshot listeners of
    lines 194 and 246 on the record \<open>code\<close>.
\<close>

datatype onopen_callback = Open_send File string | Open_ready

datatype timer_callback = Sender_cleanup string | Receiver_cleanup

datatype listener = Initiator_listener string | Responder_listener string

record RTCPeerConnection =
  currentRemoteDescription :: "description option"

record RTCDataChannel =
  label :: string
  onopen :: onopen_callback

text \<open>
  The state of the page: the React state cells, the refs, and the environment (the
  Firestore collection \<open>db\<close>, the registered listeners, the snapshot callbacks suspended at
  an \<^verbatim>\<open>await\<close>, the pending timers and the trace).  \<open>receivedFileSize\<close> is a byte count; it is
  an exact double as long as it is below \<open>2\<^sup>5\<^sup>3\<close>.  \<open>fileMetadata\<close> holds \<open>JNull\<close> for
  \<^verbatim>\<open>null\<close>.
\<close>

record app =
  mode :: string
  status :: string
  showReceiveModal :: bool
  shareCode :: string
  file_state :: "File option"
  peerConnection :: "RTCPeerConnection option"
  dataChannel :: "RTCDataChannel option"
  receivedChunks :: "ArrayBuffer list"
  receivedFileSize :: nat
  fileMetadata :: jsvalue
  db :: "string \<rightharpoonup> rdoc"
  listeners :: "listener list"
  awaiting :: "(string \<times> rdoc option) list"
  timers :: "timer_callback list"
  effects :: "effect list"

definition initial_app :: "(string \<rightharpoonup> rdoc) \<Rightarrow> app" where
  "initial_app store =
     \<lparr>mode = ''idle'', status = ''Waiting for connection...'', showReceiveModal = False,
      shareCode = '''', file_state = None, peerConnection = None, dataChannel = None,
      receivedChunks = [], receivedFileSize = 0, fileMetadata = JNull,
      db = store, listeners = [], awaiting = [], timers = [], effects = []\<rparr>"

text \<open>A method call on \<^verbatim>\<open>peerConnection.current?.\<close> or \<^verbatim>\<open>dataChannel.current?.\<close> happens
  only when the ref is not null.\<close>

definition pc_call :: "effect \<Rightarrow> app \<Rightarrow> app" where
  "pc_call c a = (case peerConnection a of None \<Rightarrow> a | Some _ \<Rightarrow> a\<lparr>effects := effects a @ [c]\<rparr>)"

definition dc_call :: "effect \<Rightarrow> app \<Rightarrow> app" where
  "dc_call c a = (case dataChannel a of None \<Rightarrow> a | Some _ \<Rightarrow> a\<lparr>effects := effects a @ [c]\<rparr>)"

definition setStatus :: "string \<Rightarrow> app \<Rightarrow> app" where
  "setStatus s a = a\<lparr>status := s\<rparr>"

subsection \<open>The record store\<close>

definition setDoc :: "string \<Rightarrow> rdoc \<Rightarrow> app \<Rightarrow> app" where
  "setDoc code d a = a\<lparr>db := (db a)(code \<mapsto> d), effects := effects a @ [DB_setDoc code]\<rparr>"

definition deleteDoc :: "string \<Rightarrow> app \<Rightarrow> app" where
  "deleteDoc code a = a\<lparr>db := (db a)(code := None), effects := effects a @ [DB_deleteDoc code]\<rparr>"

text \<open>\<^verbatim>\<open>updateDoc\<close> fails on a record that does not exist (\<open>None\<close>).\<close>

definition updateDoc :: "string \<Rightarrow> (rdoc \<Rightarrow> rdoc) \<Rightarrow> app \<Rightarrow> app option" where
  "updateDoc code upd a =
     (case db a code of
        None \<Rightarrow> None
      | Some d \<Rightarrow> Some (a\<lparr>db := (db a)(code \<mapsto> upd d), effects := effects a @ [DB_updateDoc code]\<rparr>))"

section \<open>Session lifecycle\<close>

text \<open>\<^verbatim>\<open>resetState\<close>, lines 123 to 135.\<close>

definition resetState :: "app \<Rightarrow> app" where
  "resetState a =
     (let a1 = pc_call PC_close a;
          a2 = a1\<lparr>peerConnection := None\<rparr>;
          a3 = dc_call DC_close a2;
          a4 = a3\<lparr>dataChannel := None\<rparr>
      in a4\<lparr>receivedChunks := [], receivedFileSize := 0, fileMetadata := JNull,
            file_state := None, shareCode := '''', mode := ''idle'',
            status := ''Waiting for connection...''\<rparr>)"

text \<open>\<^verbatim>\<open>handleCancel\<close>, lines 137 to 143.  The first argument is the constant \<^verbatim>\<open>shareCode\<close> of
  the render that created the handler; the empty string is falsy.\<close>

definition handleCancel :: "string \<Rightarrow> app \<Rightarrow> app" where
  "handleCancel rendered_shareCode a =
     resetState (if rendered_shareCode \<noteq> '''' then deleteDoc rendered_shareCode a else a)"

text \<open>
  \<^verbatim>\<open>handleFileChange\<close>, lines 149 to 209.  \<open>r\<close> is the outcome of \<^verbatim>\<open>Math.random()\<close> and
  \<open>offerDescription\<close> the description that \<^verbatim>\<open>createOffer()\<close> resolves to.  The store
  operations are taken to succeed and the function is run without interruption at its
  \<^verbatim>\<open>await\<close>s.
\<close>

definition handleFileChange ::
  "string \<Rightarrow> real \<Rightarrow> description \<Rightarrow> File option \<Rightarrow> app \<Rightarrow> app" where
  "handleFileChange rendered_shareCode r offerDescription selected a =
     (case selected of
        None \<Rightarrow> a
      | Some selectedFile \<Rightarrow>
          (let a1 = a\<lparr>file_state := Some selectedFile, mode := ''sending'',
                      status := ''Generating share code...''\<rparr>;
               a2 = a1\<lparr>peerConnection := Some \<lparr>currentRemoteDescription = None\<rparr>,
                       effects := effects a1 @ [PC_new]\<rparr>;
               a3 = a2\<lparr>dataChannel :=
                         Some \<lparr>label = ''file-transfer'',
                               onopen = Open_send selectedFile rendered_shareCode\<rparr>,
                       effects := effects a2 @ [PC_createDataChannel ''file-transfer'']\<rparr>;
               code = newShareCode r;
               a4 = a3\<lparr>shareCode := code\<rparr>;
               a5 = a4\<lparr>effects := effects a4 @ [PC_createOffer, PC_setLocalDescription offerDescription]\<rparr>;
               a6 = setDoc code \<lparr>offer = Some offerDescription, offerCandidates = Some [],
                                 answer = None, answerCandidates = None\<rparr> a5;
               a7 = setStatus ''Share code generated. Waiting for receiver...'' a6
           in a7\<lparr>listeners := listeners a7 @ [Initiator_listener code]\<rparr>))"

text \<open>\<^verbatim>\<open>handleReceiveSubmit\<close>, lines 215 to 272, up to the registration of the listener.\<close>

definition handleReceiveSubmit :: "string \<Rightarrow> app \<Rightarrow> app" where
  "handleReceiveSubmit code a =
     (let a1 = a\<lparr>showReceiveModal := False, shareCode := code, mode := ''receiving'',
                 status := ''Connecting with code: '' @ code @ ''...''\<rparr>;
          a2 = a1\<lparr>peerConnection := Some \<lparr>currentRemoteDescription = None\<rparr>,
                  effects := effects a1 @ [PC_new]\<rparr>
      in a2\<lparr>listeners := listeners a2 @ [Responder_listener code]\<rparr>)"

text \<open>The \<^verbatim>\<open>ondatachannel\<close> handler of the responder, lines 224 to 232.\<close>

definition ondatachannel :: "string \<Rightarrow> app \<Rightarrow> app" where
  "ondatachannel lbl a = a\<lparr>dataChannel := Some \<lparr>label = lbl, onopen = Open_ready\<rparr>\<rparr>"

text \<open>The \<^verbatim>\<open>onicecandidate\<close> handlers, lines 173 to 179 and 237 to 243; \<^verbatim>\<open>arrayUnion\<close> adds
  an element that the array does not hold yet.\<close>

definition arrayUnion :: "candidate list option \<Rightarrow> candidate \<Rightarrow> candidate list option" where
  "arrayUnion field c =
     (case field of None \<Rightarrow> Some [c] | Some cs \<Rightarrow> Some (if c \<in> set cs then cs else cs @ [c]))"

definition initiator_onicecandidate :: "string \<Rightarrow> candidate option \<Rightarrow> app \<Rightarrow> app option" where
  "initiator_onicecandidate code e a =
     (case e of
        None \<Rightarrow> Some a
      | Some c \<Rightarrow> updateDoc code (\<lambda>d. d\<lparr>offerCandidates := arrayUnion (offerCandidates d) c\<rparr>) a)"

definition responder_onicecandidate :: "string \<Rightarrow> candidate option \<Rightarrow> app \<Rightarrow> app option" where
  "responder_onicecandidate code e a =
     (case e of
        None \<Rightarrow> Some a
      | Some c \<Rightarrow> updateDoc code (\<lambda>d. d\<lparr>answerCandidates := arrayUnion (answerCandidates d) c\<rparr>) a)"

section \<open>Sending\<close>

text \<open>
  \<^verbatim>\<open>sendFileInChunks\<close>, lines 275 to 314, run to the end of the read loop.  The metadata
  message is the text \<^verbatim>\<open>JSON.stringify({name, size})\<close>, which parses back to that object.
  The timer callback is created here, so it carries the \<^verbatim>\<open>shareCode\<close> constant that this
  \<^verbatim>\<open>sendFileInChunks\<close> sees.
\<close>

definition sendFileInChunks :: "string \<Rightarrow> File \<Rightarrow> app \<Rightarrow> app option" where
  "sendFileInChunks rendered_shareCode fileToSend a =
     (let metadata = JObj [(''name'', JStr (name fileToSend)),
                           (''size'', JNum (Fin (of_nat (file_size fileToSend))))];
          a1 = dc_call (DC_send (Text (Some metadata))) a
      in case readSlice CHUNK_SIZE fileToSend 0 [] of
           None \<Rightarrow> None
         | Some chunks \<Rightarrow>
             (let a2 = foldl (\<lambda>s c. dc_call (DC_send (Binary c)) s) a1 chunks;
                  a3 = setStatus ''File sent successfully! Cleaning up...'' a2
              in Some (a3\<lparr>timers := timers a3 @ [Sender_cleanup rendered_shareCode]\<rparr>)))"

text \<open>The channel reports open: the stored \<^verbatim>\<open>onopen\<close> callback runs.\<close>

definition channel_onopen :: "app \<Rightarrow> app option" where
  "channel_onopen a =
     (case dataChannel a of
        None \<Rightarrow> Some a
      | Some ch \<Rightarrow>
          (case onopen ch of
             Open_send selectedFile rendered_shareCode \<Rightarrow>
               sendFileInChunks rendered_shareCode selectedFile
                 (setStatus ''Connection open! Sending file...'' a)
           | Open_ready \<Rightarrow> Some (setStatus ''Connection open! Ready to receive file.'' a)))"

text \<open>The oldest pending timer fires (both are set to 3000 ms).\<close>

definition timer_fires :: "app \<Rightarrow> app" where
  "timer_fires a =
     (case timers a of
        [] \<Rightarrow> a
      | t # ts \<Rightarrow>
          (let a1 = a\<lparr>timers := ts\<rparr>
           in case t of
                Sender_cleanup rendered_shareCode \<Rightarrow>
                  resetState (if rendered_shareCode \<noteq> '''' then deleteDoc rendered_shareCode a1
                              else a1)
              | Receiver_cleanup \<Rightarrow> resetState a1))"

text \<open>User actions reach the handlers of the current render, whose \<^verbatim>\<open>shareCode\<close> constant is
  the current state.\<close>

definition click_Cancel :: "app \<Rightarrow> app" where
  "click_Cancel a = handleCancel (shareCode a) a"

definition change_file :: "real \<Rightarrow> description \<Rightarrow> File option \<Rightarrow> app \<Rightarrow> app" where
  "change_file r offerDescription selected a =
     handleFileChange (shareCode a) r offerDescription selected a"

section \<open>Receiving\<close>

text \<open>
  \<^verbatim>\<open>handleReceiveMessage\<close>, lines 316 to 361.  The result says whether the handler returned
  or threw, and gives the state it left behind.  \<open>receive_text\<close> is the \<^verbatim>\<open>try\<close> block of
  lines 318 to 329: the refs are assigned before \<^verbatim>\<open>metadata.name\<close> is read, so they keep
  their new values when that read or the conversion to a string throws and the
  \<^verbatim>\<open>catch\<close> swallows the exception; the flag tells whether \<^verbatim>\<open>return\<close> was reached.
  \<open>receive_chunk\<close> is the block of lines 332 to 360.
\<close>

datatype outcome = Returned | Thrown error

definition receive_text :: "jsvalue option \<Rightarrow> app \<Rightarrow> bool \<times> app" where
  "receive_text parsed a =
     (case parsed of
        None \<Rightarrow> (False, a)
      | Some metadata \<Rightarrow>
          (let a1 = a\<lparr>fileMetadata := metadata, receivedChunks := [], receivedFileSize := 0\<rparr>
           in case get_field metadata ''name'' of
                Inl e \<Rightarrow> (False, a1)
              | Inr nm \<Rightarrow>
                  (case ToString nm of
                     Inl e \<Rightarrow> (False, a1)
                   | Inr s \<Rightarrow> (True, setStatus (''Receiving file: '' @ s) a1))))"

definition receive_chunk :: "(string \<Rightarrow> jsnum) \<Rightarrow> ArrayBuffer \<Rightarrow> app \<Rightarrow> outcome \<times> app" where
  "receive_chunk StringToNumber data a =
     (let a1 = a\<lparr>receivedChunks := receivedChunks a @ [data],
                 receivedFileSize := receivedFileSize a + length data\<rparr>;
          received = Fin (of_nat (receivedFileSize a1))
      in case get_field (fileMetadata a1) ''size'' of
           Inl e \<Rightarrow> (Thrown e, a1)
         | Inr sz \<Rightarrow>
             (case ToNumber StringToNumber sz of
                Inl e \<Rightarrow> (Thrown e, a1)
              | Inr sizeNumber \<Rightarrow>
                  (let a2 = setStatus (''Downloading... ''
                                       @ Number_toString (progress received sizeNumber) @ ''%'') a1
                   in if sz = JNum received
                      then (let a3 = setStatus ''File received! Reassembling...'' a2;
                                fileBlob = Blob (receivedChunks a3)
                            in case get_field (fileMetadata a3) ''name'' of
                                 Inl e \<Rightarrow> (Thrown e, a3)
                               | Inr nm \<Rightarrow>
                                   (case ToString nm of
                                      Inl e \<Rightarrow> (Thrown e, a3)
                                    | Inr s \<Rightarrow>
                                        (let a4 = a3\<lparr>effects := effects a3 @ [Download s fileBlob]\<rparr>;
                                             a5 = setStatus ''File downloaded! Cleaning up...'' a4
                                         in (Returned, a5\<lparr>timers := timers a5 @ [Receiver_cleanup]\<rparr>))))
                      else (Returned, a2))))"

definition handleReceiveMessage :: "(string \<Rightarrow> jsnum) \<Rightarrow> message \<Rightarrow> app \<Rightarrow> outcome \<times> app" where
  "handleReceiveMessage StringToNumber data a =
     (case data of
        Text parsed \<Rightarrow> (Returned, snd (receive_text parsed a))
      | Binary buf \<Rightarrow> receive_chunk StringToNumber buf a
      | Other \<Rightarrow> (Returned, a))"

section \<open>Signaling\<close>

text \<open>The guard \<^verbatim>\<open>!peerConnection.current?.currentRemoteDescription\<close>.\<close>

definition no_remote_description :: "app \<Rightarrow> bool" where
  "no_remote_description a =
     (case peerConnection a of None \<Rightarrow> True | Some pc \<Rightarrow> currentRemoteDescription pc = None)"

definition addIceCandidates :: "candidate list \<Rightarrow> app \<Rightarrow> app" where
  "addIceCandidates cs a = foldl (\<lambda>s c. pc_call (PC_addIceCandidate c) s) a cs"

text \<open>The snapshot callback of the initiator, lines 194 to 208; \<open>data\<close> is
  \<^verbatim>\<open>snapshot.data()\<close>, \<open>None\<close> when the record does not exist.\<close>

definition initiator_onSnapshot :: "rdoc option \<Rightarrow> app \<Rightarrow> app" where
  "initiator_onSnapshot data a =
     (let a1 = (case Option.bind data answer of
                  Some answerDescription \<Rightarrow>
                    if no_remote_description a
                    then setStatus ''Receiver connected. Establishing connection...''
                           (pc_call (PC_setRemoteDescription answerDescription) a)
                    else a
                | None \<Rightarrow> a)
      in case Option.bind data answerCandidates of
           Some cs \<Rightarrow> addIceCandidates cs a1
         | None \<Rightarrow> a1)"

text \<open>
  The snapshot callback of the responder, lines 246 to 271, is an \<^verbatim>\<open>async\<close> function.
  \<open>responder_onSnapshot\<close> is the part that runs when the snapshot arrives: with an offer
  and no remote description it calls \<^verbatim>\<open>setRemoteDescription\<close> and suspends at the first
  \<^verbatim>\<open>await\<close>; otherwise it goes on to the candidates.  \<open>responder_resume\<close> is the rest of a
  suspended callback (lines 253 to 270), run when the awaited transport operations have
  resolved, at which point the connection reports the offer as its current remote
  description; \<open>answerDescription\<close> is what \<^verbatim>\<open>createAnswer()\<close> resolved to.  With no
  connection left \<^verbatim>\<open>answerDescription\<close> is \<^verbatim>\<open>undefined\<close> and the callback ends in a
  \<^verbatim>\<open>TypeError\<close>; it also ends when \<^verbatim>\<open>updateDoc\<close> fails.
\<close>

definition responder_onSnapshot :: "string \<Rightarrow> rdoc option \<Rightarrow> app \<Rightarrow> app" where
  "responder_onSnapshot code data a =
     (let candidates = (case Option.bind data offerCandidates of
                          Some cs \<Rightarrow> addIceCandidates cs a
                        | None \<Rightarrow> a)
      in case Option.bind data offer of
           Some offerDescription \<Rightarrow>
             if no_remote_description a
             then (let a1 = setStatus ''Offer received. Creating answer...'' a;
                       a2 = pc_call (PC_setRemoteDescription offerDescription) a1
                   in a2\<lparr>awaiting := awaiting a2 @ [(code, data)]\<rparr>)
             else candidates
         | None \<Rightarrow> candidates)"

definition responder_resume :: "description \<Rightarrow> app \<Rightarrow> app" where
  "responder_resume answerDescription a =
     (case awaiting a of
        [] \<Rightarrow> a
      | (code, data) # rest \<Rightarrow>
          (let a0 = a\<lparr>awaiting := rest\<rparr>
           in case peerConnection a0 of
                None \<Rightarrow> a0
              | Some pc \<Rightarrow>
                  (let a1 = a0\<lparr>effects := effects a0 @ [PC_createAnswer,
                                          PC_setLocalDescription answerDescription],
                               peerConnection :=
                                 Some (pc\<lparr>currentRemoteDescription := Option.bind data offer\<rparr>)\<rparr>
                   in case updateDoc code (\<lambda>d. d\<lparr>answer := Some answerDescription,
                                                    answerCandidates := Some []\<rparr>) a1 of
                        None \<Rightarrow> a1
                      | Some a2 \<Rightarrow>
                          (let a3 = setStatus ''Answer sent. Establishing connection...'' a2
                           in case Option.bind data offerCandidates of
                                Some cs \<Rightarrow> addIceCandidates cs a3
                              | None \<Rightarrow> a3))))"

text \<open>
  The transport finishes a \<^verbatim>\<open>setRemoteDescription\<close> that the initiator called without
  awaiting it: from then on the connection reports the description.  A second answer on a
  connection that already has one is rejected and changes nothing.
\<close>

definition remote_description_applied :: "description \<Rightarrow> app \<Rightarrow> app" where
  "remote_description_applied d a =
     (case peerConnection a of
        None \<Rightarrow> a
      | Some pc \<Rightarrow>
          if currentRemoteDescription pc = None
          then a\<lparr>peerConnection := Some (pc\<lparr>currentRemoteDescription := Some d\<rparr>)\<rparr>
          else a)"

text \<open>
  What the trace says about the transport: the descriptions passed to
  \<^verbatim>\<open>setRemoteDescription\<close> and the candidates passed to \<^verbatim>\<open>addIceCandidate\<close>, in the order
  of the calls.  The exchange keeps no record of the candidates it has applied; it relies on
  the transport to apply a candidate idempotently, as sections 4.3 and 5 of the spec allow.
  The state of the transport, as far as remote candidates go, is therefore the set of the
  candidates it has been handed, \<open>applied_candidates\<close>.
\<close>

fun remote_description_of :: "effect \<Rightarrow> description option" where
  "remote_description_of (PC_setRemoteDescription d) = Some d"
| "remote_description_of e = None"

fun candidate_of :: "effect \<Rightarrow> candidate option" where
  "candidate_of (PC_addIceCandidate c) = Some c"
| "candidate_of e = None"

definition remote_applications :: "app \<Rightarrow> nat" where
  "remote_applications a = length (List.map_filter remote_description_of (effects a))"

definition candidate_applications :: "candidate \<Rightarrow> app \<Rightarrow> nat" where
  "candidate_applications c a = count_list (List.map_filter candidate_of (effects a)) c"

definition applied_candidates :: "app \<Rightarrow> candidate set" where
  "applied_candidates a = set (List.map_filter candidate_of (effects a))"

section \<open>A whole transfer\<close>

text \<open>The metadata object that \<^verbatim>\<open>sendFileInChunks\<close> announces for a file, and the delivery
  of a sequence of messages to the receiver's handler, one \<^verbatim>\<open>onmessage\<close> event after the
  other (an event is delivered also when an earlier handler threw).\<close>

definition metadata_of :: "File \<Rightarrow> jsvalue" where
  "metadata_of f = JObj [(''name'', JStr (name f)), (''size'', JNum (Fin (real (file_size f))))]"

definition deliver :: "(string \<Rightarrow> jsnum) \<Rightarrow> message list \<Rightarrow> app \<Rightarrow> app" where
  "deliver StringToNumber msgs a =
     foldl (\<lambda>s m. snd (handleReceiveMessage StringToNumber m s)) a msgs"

section \<open>Example inputs\<close>

text \<open>A rendezvous record as the initiator creates it, a three-byte file, and a receiver
  in the middle of a transfer: metadata recorded, one chunk of three bytes buffered.\<close>

definition offer_record :: "description \<Rightarrow> rdoc" where
  "offer_record d = \<lparr>offer = Some d, offerCandidates = Some [], answer = None,
                     answerCandidates = None\<rparr>"

definition doc_bin :: File where
  "doc_bin = \<lparr>name = ''doc.bin'', content = [1, 2, 3]\<rparr>"

definition doc_metadata :: jsvalue where
  "doc_metadata = JObj [(''name'', JStr ''doc.bin''), (''size'', JNum (Fin 10))]"

definition receiving_example :: app where
  "receiving_example =
     (initial_app Map.empty)
       \<lparr>mode := ''receiving'', shareCode := ''482913'', fileMetadata := doc_metadata,
        receivedChunks := [[1, 2, 3]], receivedFileSize := 3\<rparr>"

text \<open>An initiator that has published its offer under the code \<open>5\<close> (the share code for the
  random number 0.5), and two snapshots of its record after the responder has answered,
  the second with one more candidate.\<close>

definition offering_example :: app where
  "offering_example = change_file (1 / 2) ''offer-sdp'' (Some doc_bin) (initial_app Map.empty)"

definition snapshot_1 :: rdoc where
  "snapshot_1 = \<lparr>offer = Some ''offer-sdp'', offerCandidates = Some [],
                  answer = Some ''answer-sdp'', answerCandidates = Some [''candidate-1'']\<rparr>"

definition snapshot_2 :: rdoc where
  "snapshot_2 = \<lparr>offer = Some ''offer-sdp'', offerCandidates = Some [],
                  answer = Some ''answer-sdp'',
                  answerCandidates = Some [''candidate-1'', ''candidate-2'']\<rparr>"




section \<open>Properties of the number model\<close>

lemma logn_le: "2 \<le> b \<Longrightarrow> 1 \<le> n \<Longrightarrow> b ^ logn b n \<le> n"
proof (induction b n rule: logn.induct)
  case (1 b n)
  show ?case
  proof (cases "n < b")
    case True
    then show ?thesis using "1.prems" by (subst logn.simps) simp
  next
    case False
    then have nb: "b \<le> n" by simp
    have d: "1 \<le> n div b" using nb "1.prems"(1)
      using div_greater_zero_iff[of n b] by simp
    have "b ^ logn b (n div b) \<le> n div b"
      using "1.IH" False "1.prems"(1) d by simp
    then have "b * b ^ logn b (n div b) \<le> b * (n div b)" by simp
    also have "\<dots> \<le> n" by simp
    finally show ?thesis using False "1.prems"(1) by (subst logn.simps) simp
  qed
qed

lemma logn_less: "2 \<le> b \<Longrightarrow> n < b ^ Suc (logn b n)"
proof (induction b n rule: logn.induct)
  case (1 b n)
  show ?case
  proof (cases "n < b")
    case True
    then show ?thesis using "1.prems" by (subst logn.simps) simp
  next
    case False
    have "n div b < b ^ Suc (logn b (n div b))"
      using "1.IH" False "1.prems" by simp
    then have "n < b * b ^ Suc (logn b (n div b))"
      using "1.prems" div_less_iff_less_mult[of b n "b ^ Suc (logn b (n div b))"]
      by (simp add: mult.commute)
    then show ?thesis using False "1.prems" by (subst logn.simps) simp
  qed
qed

lemma logn_numeral [simp]:
  "logn b 0 = 0"
  "logn b (Suc 0) = 0"
  "logn (numeral c) (numeral n) =
     (if numeral c < (2::nat) \<or> numeral n < (numeral c :: nat) then 0
      else Suc (logn (numeral c) (numeral n div numeral c)))"
proof -
  show "logn b 0 = 0" by (subst logn.simps) auto
  show "logn b (Suc 0) = 0" by (subst logn.simps) auto
  show "logn (numeral c) (numeral n) =
     (if numeral c < (2::nat) \<or> numeral n < (numeral c :: nat) then 0
      else Suc (logn (numeral c) (numeral n div numeral c)))"
    by (rule logn.simps)
qed

lemma pow_powi: "pow b e = of_nat b powi e"
  by (simp add: pow_def power_int_def power_inverse inverse_eq_divide power_one_over)

lemma pow_pos: "0 < b \<Longrightarrow> 0 < pow b e"
  by (simp add: pow_powi)

lemma pow_mono: "1 \<le> b \<Longrightarrow> e \<le> e' \<Longrightarrow> pow b e \<le> pow b e'"
  by (simp add: pow_powi power_int_increasing)

lemma flog_le:
  assumes "2 \<le> b" "0 < a"
  shows "pow b (flog b a) \<le> a"
proof (cases "1 \<le> a")
  case True
  then have n: "1 \<le> nat \<lfloor>a\<rfloor>" by linarith
  have "real (b ^ logn b (nat \<lfloor>a\<rfloor>)) \<le> real (nat \<lfloor>a\<rfloor>)"
    using logn_le[OF assms(1) n] of_nat_le_iff by blast
  also have "\<dots> \<le> a" using True by linarith
  finally show ?thesis using True by (simp add: flog_def pow_def)
next
  case False
  then have a1: "a < 1" by simp
  then have "1 < 1 / a" using assms(2) by simp
  then have N: "2 \<le> \<lceil>1 / a\<rceil>" by linarith
  define c where "c = \<lceil>1 / a\<rceil>"
  have c2: "2 \<le> c" using N by (simp only: c_def)
  have ca: "1 / a \<le> of_int c" unfolding c_def by linarith
  let ?S = "Suc (logn b (nat (c - 1)))"
  have "nat (c - 1) < b ^ ?S" using logn_less[OF assms(1)] .
  then have "Suc (nat (c - 1)) \<le> b ^ ?S" by simp
  then have "real (Suc (nat (c - 1))) \<le> real (b ^ ?S)" using of_nat_le_iff by blast
  moreover have "real (Suc (nat (c - 1))) = of_int c" using c2 by simp
  ultimately have "1 / a \<le> real b ^ ?S" using ca by simp
  then have "1 / real b ^ ?S \<le> a"
    using assms by (simp add: field_simps)
  moreover have "flog b a = - int ?S" using a1 c2 by (simp add: flog_def c_def[symmetric])
  moreover have "pow b (- int ?S) = 1 / real b ^ ?S"
    unfolding pow_def by (simp only: nat_int minus_minus) simp
  ultimately show ?thesis by (simp only:)
qed

lemma round_half_even_le: "q \<le> of_int K \<Longrightarrow> round_half_even q \<le> K"
proof -
  assume q: "q \<le> of_int K"
  show ?thesis
  proof (cases "q = of_int K")
    case True
    then show ?thesis by (simp add: round_half_even_def)
  next
    case False
    then have "q < of_int K" using q by simp
    then have "\<lfloor>q\<rfloor> < K" by (simp add: floor_less_iff)
    then show ?thesis by (simp add: round_half_even_def Let_def)
  qed
qed

lemma round_half_even_nonneg: "0 \<le> q \<Longrightarrow> 0 \<le> round_half_even q"
proof -
  assume "0 \<le> q"
  then have "0 \<le> \<lfloor>q\<rfloor>" by simp
  then show ?thesis by (simp add: round_half_even_def Let_def)
qed

lemma round_half_even_error: "\<bar>real_of_int (round_half_even q) - q\<bar> \<le> 1 / 2"
proof -
  have "real_of_int \<lfloor>q\<rfloor> \<le> q" "q < real_of_int \<lfloor>q\<rfloor> + 1" by linarith+
  then show ?thesis by (auto simp: round_half_even_def Let_def)
qed

lemma fl_error:
  assumes "0 \<le> x" "x \<le> real D" "D < 2 ^ 53"
  shows "\<exists>y. fl x = Fin y \<and> 0 \<le> y \<and> y \<le> real D \<and> \<bar>y - x\<bar> \<le> x / 2 ^ 53 + 1 / 2 ^ 1075"
proof (cases "x = 0")
  case True
  then show ?thesis by (simp add: fl_def)
next
  case False
  then have x: "0 < x" using assms(1) by simp
  define e where "e = max (flog 2 x) (- 1022)"
  define k where "k = nat (52 - e)"
  define m where "m = round_half_even (x * 2 ^ k)"
  have e52: "e \<le> 52"
  proof (rule ccontr)
    assume "\<not> e \<le> 52"
    then have "53 \<le> flog 2 x" by (simp add: e_def max_def split: if_splits)
    then have "pow 2 53 \<le> pow 2 (flog 2 x)" by (intro pow_mono) simp_all
    also have "\<dots> \<le> x" using flog_le[of 2 x] x by simp
    also have "\<dots> \<le> real D" by (rule assms(2))
    also have "\<dots> < 2 ^ 53" using assms(3) of_nat_less_iff[of D "2 ^ 53", where ?'a = real] by simp
    finally show False by (simp add: pow_def)
  qed
  have u: "pow 2 (e - 52) = 1 / 2 ^ k"
    using e52 by (cases "e = 52") (simp_all add: pow_def k_def)
  have "x * 2 ^ k \<le> real D * 2 ^ k" using assms(2) by simp
  also have "\<dots> = of_int (int D * 2 ^ k)" by simp
  finally have "m \<le> int D * 2 ^ k" unfolding m_def by (rule round_half_even_le)
  then have "real_of_int m \<le> real_of_int (int D * 2 ^ k)" using of_int_le_iff by blast
  then have mD: "real_of_int m / 2 ^ k \<le> real D" by (simp add: field_simps)
  have m0: "0 \<le> m" unfolding m_def using x by (intro round_half_even_nonneg) simp
  have big: "real D < 2 ^ 1024"
  proof -
    have "real D < 2 ^ 53" using assms(3) of_nat_less_iff[of D "2 ^ 53", where ?'a = real] by simp
    also have "\<dots> \<le> (2::real) ^ 1024" by (intro power_increasing) simp_all
    finally show ?thesis .
  qed
  have flx: "fl x = Fin (real_of_int m / 2 ^ k)"
    using x mD big u
    by (simp add: fl_def Let_def e_def[symmetric] m_def[symmetric] del: power_numeral_even power_numeral_odd)
  have "\<bar>real_of_int m - x * 2 ^ k\<bar> \<le> 1 / 2"
    unfolding m_def by (rule round_half_even_error)
  then have "\<bar>real_of_int m - x * 2 ^ k\<bar> / 2 ^ k \<le> (1 / 2) / 2 ^ k"
    by (intro divide_right_mono) simp_all
  moreover have "\<bar>real_of_int m - x * 2 ^ k\<bar> / 2 ^ k = \<bar>real_of_int m / 2 ^ k - x\<bar>"
  proof -
    have "real_of_int m / 2 ^ k - x = (real_of_int m - x * 2 ^ k) / 2 ^ k"
      by (simp add: field_simps)
    then show ?thesis by (simp add: abs_divide del: power_numeral_even power_numeral_odd)
  qed
  ultimately have err: "\<bar>real_of_int m / 2 ^ k - x\<bar> \<le> pow 2 (e - 52) / 2"
    using u by simp
  have half: "pow 2 (e - 52) / 2 \<le> x / 2 ^ 53 + 1 / 2 ^ 1075"
  proof (cases "flog 2 x \<le> - 1022")
    case True
    then have "e = - 1022" by (simp add: e_def)
    then have "pow 2 (e - 52) / 2 = 1 / 2 ^ 1075" by (simp add: pow_def)
    then show ?thesis using x by simp
  next
    case False
    then have ee: "e = flog 2 x" by (simp add: e_def)
    have "pow 2 (e - 52) = pow 2 e / 2 ^ 52"
      by (simp add: pow_powi power_int_diff)
    also have "\<dots> \<le> x / 2 ^ 52"
      using flog_le[of 2 x] x ee by (intro divide_right_mono) simp_all
    finally have "pow 2 (e - 52) / 2 \<le> x / 2 ^ 52 / 2" by simp
    also have "\<dots> = x / 2 ^ 53" by simp
    finally show ?thesis by simp
  qed
  show ?thesis using flx mD m0 err half by simp
qed



section \<open>Chunking\<close>

lemma blob_slice_eq: "blob_slice b s (s + c) = take c (drop s b)"
  by (auto simp: blob_slice_def min_def Let_def)

lemma ceil_one: "0 < cs \<Longrightarrow> n \<le> cs \<Longrightarrow> max 1 ((n + cs - 1) div cs) = (1::nat)"
proof -
  assume a: "0 < cs" "n \<le> cs"
  have "n + cs - 1 < 2 * cs" using a by simp
  then have "(n + cs - 1) div cs < 2" using a
    by (simp add: less_mult_imp_div_less mult.commute)
  then show ?thesis by (simp add: max_def)
qed

lemma ceil_step:
  "0 < cs \<Longrightarrow> cs < n \<Longrightarrow> (n + cs - 1) div cs = Suc ((n - cs + cs - 1) div cs)" for n :: nat
proof -
  assume a: "0 < cs" "cs < n"
  obtain m where m: "n = Suc m" using a by (cases n) auto
  have "(n + cs - 1) div cs = (m + cs) div cs" using m by simp
  also have "\<dots> = Suc (m div cs)" using a div_add_self2[of cs m] by simp
  also have "m = n - cs + cs - 1" using a m by simp
  finally show ?thesis .
qed

lemma ceil_pos: "0 < cs \<Longrightarrow> 0 < n \<Longrightarrow> 1 \<le> (n + cs - 1) div cs" for n :: nat
proof -
  assume a: "0 < cs" "0 < n"
  have "cs \<le> n + cs - 1" using a by simp
  then have "cs div cs \<le> (n + cs - 1) div cs" by (rule div_le_mono)
  then show ?thesis using a by simp
qed

lemma readSlice_from:
  assumes "0 < cs"
  shows "\<exists>chunks. readSlice cs f off sent = Some (sent @ chunks)
     \<and> concat chunks = drop off (content f)
     \<and> length chunks = max 1 ((file_size f - off + cs - 1) div cs)
     \<and> (\<forall>i<length chunks. chunks ! i = blob_slice (content f) (off + i * cs) (off + i * cs + cs))"
proof (induction "file_size f - off" arbitrary: off sent rule: less_induct)
  case less
  let ?r = "blob_slice (content f) off (off + cs)"
  have lr: "length ?r = min cs (file_size f - off)"
    by (simp add: blob_slice_eq file_size_def)
  show ?case
  proof (cases "off + length ?r < file_size f")
    case False
    then have short: "file_size f - off \<le> cs"
      unfolding lr by (simp add: min_def split: if_splits)
    have r: "?r = drop off (content f)"
      using short by (simp add: blob_slice_eq file_size_def)
    have run: "readSlice cs f off sent = Some (sent @ [?r])"
      using False by (subst readSlice.simps) (simp add: Let_def)
    have cnt: "max 1 ((file_size f - off + cs - 1) div cs) = 1"
      using ceil_one[OF assms short] .
    have idx: "[?r] ! 0 = blob_slice (content f) (off + 0 * cs) (off + 0 * cs + cs)"
      by simp
    show ?thesis
      apply (rule exI[of _ "[?r]"])
      using run r cnt by simp
  next
    case True
    then have long: "cs < file_size f - off"
      unfolding lr by (simp add: min_def split: if_splits)
    have len: "length ?r = cs"
      using long unfolding lr by simp
    have step: "readSlice cs f off sent = readSlice cs f (off + cs) (sent @ [?r])"
      using True len by (subst readSlice.simps) (simp add: Let_def)
    have "file_size f - (off + cs) < file_size f - off"
      using long assms by simp
    from less[OF this, of "sent @ [?r]"] obtain chunks where
      ch1: "readSlice cs f (off + cs) (sent @ [?r]) = Some ((sent @ [?r]) @ chunks)" and
      ch2: "concat chunks = drop (off + cs) (content f)" and
      ch3: "length chunks = max 1 ((file_size f - (off + cs) + cs - 1) div cs)" and
      ch4: "\<forall>i<length chunks. chunks ! i = blob_slice (content f) (off + cs + i * cs) (off + cs + i * cs + cs)"
      by blast
    have "take cs (drop off (content f)) @ drop cs (drop off (content f)) = drop off (content f)"
      by (rule append_take_drop_id)
    moreover have "drop cs (drop off (content f)) = drop (off + cs) (content f)"
      by (simp add: add.commute)
    ultimately have cat: "concat (?r # chunks) = drop off (content f)"
      using ch2 by (simp add: blob_slice_eq)
    have "(file_size f - off + cs - 1) div cs = Suc ((file_size f - off - cs + cs - 1) div cs)"
      using ceil_step[OF assms long] .
    moreover have "1 \<le> (file_size f - (off + cs) + cs - 1) div cs"
      using ceil_pos[OF assms, of "file_size f - (off + cs)"] long by simp
    ultimately have cnt: "length (?r # chunks) = max 1 ((file_size f - off + cs - 1) div cs)"
      using ch3 by (simp add: max_def)
    have idx: "\<forall>i<length (?r # chunks). (?r # chunks) ! i = blob_slice (content f) (off + i * cs) (off + i * cs + cs)"
    proof (intro allI impI)
      fix i assume i: "i < length (?r # chunks)"
      show "(?r # chunks) ! i = blob_slice (content f) (off + i * cs) (off + i * cs + cs)"
      proof (cases i)
        case 0 then show ?thesis by simp
      next
        case (Suc j)
        then have "j < length chunks" using i by simp
        then have "chunks ! j = blob_slice (content f) (off + cs + j * cs) (off + cs + j * cs + cs)"
          using ch4 by blast
        moreover have "off + cs + j * cs = off + Suc j * cs" by simp
        ultimately show ?thesis using Suc by simp
      qed
    qed
    show ?thesis
      apply (rule exI[of _ "?r # chunks"])
      using step ch1 cat cnt idx by simp
  qed
qed


text \<open>
  Claim C6, as the code has it.  For every file and every chunk size \<open>C > 0\<close> the read loop
  ends and hands over \<open>max 1 \<lceil>S / C\<rceil>\<close> chunks, where \<open>S\<close> is the size of the file: chunk \<open>i\<close>
  is the slice of the file from \<open>i * C\<close> to \<open>i * C + C\<close>, so the chunks are contiguous, in
  order, not overlapping and at most \<open>C\<close> bytes long, and the blob built from them in this
  order is the file.  An empty file is sent as one empty chunk, not as no chunk.
\<close>

theorem chunking_round_trip:
  assumes "0 < chunk_size"
  shows "\<exists>chunks. readSlice chunk_size f 0 [] = Some chunks
           \<and> Blob chunks = content f
           \<and> length chunks = max 1 ((file_size f + chunk_size - 1) div chunk_size)
           \<and> (\<forall>i<length chunks.
                  chunks ! i = blob_slice (content f) (i * chunk_size) (i * chunk_size + chunk_size)
                  \<and> length (chunks ! i) \<le> chunk_size)
           \<and> (file_size f = 0 \<longrightarrow> chunks = [[]])"
proof -
  obtain chunks where
    run: "readSlice chunk_size f 0 [] = Some ([] @ chunks)" and
    cat: "concat chunks = drop 0 (content f)" and
    cnt: "length chunks = max 1 ((file_size f - 0 + chunk_size - 1) div chunk_size)" and
    idx: "\<forall>i<length chunks.
            chunks ! i = blob_slice (content f) (0 + i * chunk_size) (0 + i * chunk_size + chunk_size)"
    using readSlice_from[OF assms, of f 0 "[]"] by blast
  have len: "\<forall>i<length chunks. length (chunks ! i) \<le> chunk_size"
    using idx by (simp add: blob_slice_eq)
  have empty: "file_size f = 0 \<longrightarrow> chunks = [[]]"
  proof
    assume z: "file_size f = 0"
    then have "length chunks = 1" using cnt assms by simp
    then obtain c where c: "chunks = [c]" by (cases chunks) auto
    then show "chunks = [[]]" using cat z by (simp add: file_size_def)
  qed
  show ?thesis
    using run cat cnt idx len empty by (intro exI[of _ chunks]) (simp add: Blob_def)
qed

theorem chunking_round_trip_witness:
  "(0::nat) < 4 \<and>
   (\<exists>chunks. readSlice 4 \<lparr>name = ''a.bin'', content = [1, 2, 3, 4, 5, 6, 7, 8, 9]\<rparr> 0 [] = Some chunks
      \<and> Blob chunks = [1, 2, 3, 4, 5, 6, 7, 8, 9] \<and> length chunks = 3)"
  using chunking_round_trip[of 4 "\<lparr>name = ''a.bin'', content = [1, 2, 3, 4, 5, 6, 7, 8, 9]\<rparr>"]
  by (auto simp: file_size_def)

text \<open>The empty file: the loop of \<^verbatim>\<open>sendFileInChunks\<close> sends one chunk, of length 0, where
  \<open>\<lceil>0 / C\<rceil>\<close> is 0.\<close>

theorem chunk_count_counterexample:
  "readSlice CHUNK_SIZE \<lparr>name = ''empty.bin'', content = []\<rparr> 0 [] = Some [[]]
   \<and> (file_size \<lparr>name = ''empty.bin'', content = []\<rparr> + CHUNK_SIZE - 1) div CHUNK_SIZE = 0
   \<and> length [[] :: ArrayBuffer] \<noteq> 0"
  by (simp add: readSlice.simps blob_slice_def file_size_def CHUNK_SIZE_def)

section \<open>Progress\<close>

text \<open>
  Claim C4, as the code has it.  For byte counts \<open>receivedBytes \<le> totalBytes\<close> with
  \<open>0 < totalBytes < 2\<^sup>5\<^sup>3\<close> the progress computation returns an integer between 0 and
  100, rounded to nearest: it is the integer nearest to the double \<open>z\<close> that the quotient
  times 100 evaluates to (a tie goes up), and \<open>z\<close> is within \<open>2\<^sup>-\<^sup>4\<^sup>5\<close> of the exact
  percentage.  The division is not guarded: with \<open>totalBytes = 0\<close> the result is \<^verbatim>\<open>NaN\<close>
  when nothing has been received and \<^verbatim>\<open>Infinity\<close> otherwise, and not 0.
\<close>

theorem progress_in_range:
  "(0 < totalBytes \<and> receivedBytes \<le> totalBytes \<and> totalBytes < 2 ^ 53 \<longrightarrow>
      (\<exists>(p::int) z.
          num_mul (num_div (Fin (real receivedBytes)) (Fin (real totalBytes))) (Fin 100) = Fin z
          \<and> progress (Fin (real receivedBytes)) (Fin (real totalBytes)) = Fin (of_int p)
          \<and> 0 \<le> p \<and> p \<le> 100
          \<and> z - 1 / 2 < of_int p \<and> of_int p \<le> z + 1 / 2
          \<and> \<bar>z - 100 * real receivedBytes / real totalBytes\<bar> \<le> 1 / 2 ^ 45))
   \<and> progress (Fin (real 0)) (Fin (real 0)) = NaN
   \<and> (0 < receivedBytes \<longrightarrow> progress (Fin (real receivedBytes)) (Fin (real 0)) = PosInf)"
proof (intro conjI impI)
  assume a: "0 < totalBytes \<and> receivedBytes \<le> totalBytes \<and> totalBytes < 2 ^ 53"
  define q where "q = real receivedBytes / real totalBytes"
  have q: "0 \<le> q" "q \<le> real 1"
    using a by (simp_all add: q_def)
  obtain y where y: "fl q = Fin y" "0 \<le> y" "y \<le> 1" "\<bar>y - q\<bar> \<le> q / 2 ^ 53 + 1 / 2 ^ 1075"
    using fl_error[OF q] by auto
  have "0 \<le> y * 100" "y * 100 \<le> real 100" using y by simp_all
  then obtain z where z: "fl (y * 100) = Fin z" "0 \<le> z" "z \<le> 100"
    "\<bar>z - y * 100\<bar> \<le> y * 100 / 2 ^ 53 + 1 / 2 ^ 1075"
    using fl_error[of "y * 100" 100] by auto
  have prod: "num_mul (num_div (Fin (real receivedBytes)) (Fin (real totalBytes))) (Fin 100) = Fin z"
    using a y(1) z(1) by (simp add: q_def)
  then have pr: "progress (Fin (real receivedBytes)) (Fin (real totalBytes)) = Fin (of_int \<lfloor>z + 1 / 2\<rfloor>)"
    by (simp add: progress_def)
  have p0: "0 \<le> \<lfloor>z + 1 / 2\<rfloor>" using z(2) by simp
  have p100: "\<lfloor>z + 1 / 2\<rfloor> \<le> 100" using z(3) by (simp add: floor_le_iff)
  have near: "z - 1 / 2 < of_int \<lfloor>z + 1 / 2\<rfloor>" "of_int \<lfloor>z + 1 / 2\<rfloor> \<le> z + 1 / 2"
    by linarith+
  have e1: "\<bar>y - q\<bar> \<le> 1 / 2 ^ 53 + 1 / 2 ^ 1075"
  proof -
    have "q / 2 ^ 53 \<le> 1 / 2 ^ 53" using q(2) by (intro divide_right_mono) simp_all
    then show ?thesis using y(4) by linarith
  qed
  have e2: "\<bar>z - y * 100\<bar> \<le> 100 / 2 ^ 53 + 1 / 2 ^ 1075"
  proof -
    have "y * 100 / 2 ^ 53 \<le> 100 / 2 ^ 53" using y(3) by (intro divide_right_mono) simp_all
    then show ?thesis using z(4) by linarith
  qed
  have t: "z - 100 * q = (z - y * 100) + 100 * (y - q)" by (simp add: algebra_simps)
  have "\<bar>z - 100 * q\<bar> \<le> \<bar>z - y * 100\<bar> + \<bar>100 * (y - q)\<bar>"
    unfolding t by (rule abs_triangle_ineq)
  also have "\<bar>100 * (y - q)\<bar> = 100 * \<bar>y - q\<bar>"
    using abs_mult[of 100 "y - q"] by (simp only: abs_numeral)
  finally have "\<bar>z - 100 * q\<bar> \<le> \<bar>z - y * 100\<bar> + 100 * \<bar>y - q\<bar>" .
  also have "\<dots> \<le> (100 / 2 ^ 53 + 1 / 2 ^ 1075) + 100 * (1 / 2 ^ 53 + 1 / 2 ^ 1075)"
    by (intro add_mono mult_left_mono e1 e2) simp
  also have "\<dots> \<le> 1 / 2 ^ 45" by simp
  finally have acc: "\<bar>z - 100 * real receivedBytes / real totalBytes\<bar> \<le> 1 / 2 ^ 45"
    by (simp add: q_def)
  show "\<exists>(p::int) z.
          num_mul (num_div (Fin (real receivedBytes)) (Fin (real totalBytes))) (Fin 100) = Fin z
          \<and> progress (Fin (real receivedBytes)) (Fin (real totalBytes)) = Fin (of_int p)
          \<and> 0 \<le> p \<and> p \<le> 100
          \<and> z - 1 / 2 < of_int p \<and> of_int p \<le> z + 1 / 2
          \<and> \<bar>z - 100 * real receivedBytes / real totalBytes\<bar> \<le> 1 / 2 ^ 45"
    using prod pr p0 p100 near acc by blast
next
  show "progress (Fin (real 0)) (Fin (real 0)) = NaN" by (simp add: progress_def)
next
  assume "0 < receivedBytes"
  then show "progress (Fin (real receivedBytes)) (Fin (real 0)) = PosInf"
    by (simp add: progress_def)
qed

theorem progress_in_range_witness:
  "(0::nat) < 3 \<and> (1::nat) \<le> 3 \<and> (3::nat) < 2 ^ 53
   \<and> (\<exists>(p::int) z.
          num_mul (num_div (Fin (real 1)) (Fin (real 3))) (Fin 100) = Fin z
          \<and> progress (Fin (real 1)) (Fin (real 3)) = Fin (of_int p)
          \<and> 0 \<le> p \<and> p \<le> 100
          \<and> z - 1 / 2 < of_int p \<and> of_int p \<le> z + 1 / 2
          \<and> \<bar>z - 100 * real 1 / real 3\<bar> \<le> 1 / 2 ^ 45)
   \<and> progress (Fin (real 1)) (Fin (real 0)) = PosInf"
  using progress_in_range[of 3 1] by simp

text \<open>Without a received byte and with a declared size of 0 the percentage is \<^verbatim>\<open>NaN\<close>; with
  more bytes than declared it exceeds 100.\<close>

theorem progress_counterexample:
  "progress (Fin 0) (Fin 0) = NaN \<and> progress (Fin 3) (Fin 2) = Fin 150"
  by (simp add: progress_def fl_def flog_def round_half_even_def Let_def pow_def)

text \<open>When everything announced has arrived the percentage is 100.\<close>

lemma fl_one: "fl 1 = Fin 1"
  by (simp add: fl_def flog_def round_half_even_def Let_def pow_def)

lemma fl_hundred: "fl 100 = Fin 100"
  by (simp add: fl_def flog_def round_half_even_def Let_def pow_def)

lemma progress_complete: "0 < n \<Longrightarrow> progress (Fin (real n)) (Fin (real n)) = Fin 100"
  by (simp add: progress_def fl_one fl_hundred)

section \<open>Properties of the state operations\<close>

lemmas app_defs = setDoc_def deleteDoc_def updateDoc_def setStatus_def pc_call_def dc_call_def
  resetState_def

lemma db_resetState: "db (resetState a) = db a"
  by (simp add: app_defs Let_def split: option.splits)

lemma mode_resetState: "mode (resetState a) = ''idle''"
  by (simp add: app_defs Let_def split: option.splits)

lemma shareCode_resetState: "shareCode (resetState a) = ''''"
  by (simp add: app_defs Let_def split: option.splits)

lemma peerConnection_resetState: "peerConnection (resetState a) = None"
  by (simp add: app_defs Let_def split: option.splits)

lemma effects_resetState:
  "effects (resetState a) =
     effects a @ (case peerConnection a of None \<Rightarrow> [] | Some _ \<Rightarrow> [PC_close])
               @ (case dataChannel a of None \<Rightarrow> [] | Some _ \<Rightarrow> [DC_close])"
  by (simp add: app_defs Let_def split: option.splits)

lemma dc_call_fields [simp]:
  "db (dc_call e a) = db a" "timers (dc_call e a) = timers a"
  "shareCode (dc_call e a) = shareCode a" "mode (dc_call e a) = mode a"
  "status (dc_call e a) = status a" "dataChannel (dc_call e a) = dataChannel a"
  "peerConnection (dc_call e a) = peerConnection a"
  by (simp_all add: dc_call_def split: option.splits)

lemma pc_call_fields [simp]:
  "db (pc_call e a) = db a" "timers (pc_call e a) = timers a"
  "shareCode (pc_call e a) = shareCode a" "mode (pc_call e a) = mode a"
  "status (pc_call e a) = status a" "dataChannel (pc_call e a) = dataChannel a"
  "peerConnection (pc_call e a) = peerConnection a" "awaiting (pc_call e a) = awaiting a" "listeners (pc_call e a) = listeners a"
  by (simp_all add: pc_call_def split: option.splits)

lemma effects_pc_call:
  "effects (pc_call e a) = effects a @ (case peerConnection a of None \<Rightarrow> [] | Some _ \<Rightarrow> [e])"
  by (simp add: pc_call_def split: option.splits)

lemma effects_dc_call:
  "effects (dc_call e a) = effects a @ (case dataChannel a of None \<Rightarrow> [] | Some _ \<Rightarrow> [e])"
  by (simp add: dc_call_def split: option.splits)

lemma foldl_send:
  "foldl (\<lambda>s c. dc_call (DC_send (Binary c)) s) a chunks =
     (case dataChannel a of
        None \<Rightarrow> a
      | Some _ \<Rightarrow> a\<lparr>effects := effects a @ map (\<lambda>c. DC_send (Binary c)) chunks\<rparr>)"
proof (induction chunks arbitrary: a)
  case Nil
  then show ?case by (simp split: option.splits)
next
  case (Cons c chunks)
  show ?case
    by (simp add: Cons.IH) (simp add: dc_call_def split: option.splits)
qed

lemma CHUNK_SIZE_pos: "0 < CHUNK_SIZE"
  by (simp add: CHUNK_SIZE_def)

lemma sendFileInChunks_returns:
  "\<exists>a'. sendFileInChunks c f a = Some a'
        \<and> timers a' = timers a @ [Sender_cleanup c]
        \<and> db a' = db a \<and> shareCode a' = shareCode a \<and> mode a' = mode a
        \<and> status a' = ''File sent successfully! Cleaning up...''"
proof -
  obtain chunks where "readSlice CHUNK_SIZE f 0 [] = Some ([] @ chunks)"
    using readSlice_from[OF CHUNK_SIZE_pos, of f 0 "[]"] by blast
  then show ?thesis
    by (simp add: sendFileInChunks_def Let_def foldl_send setStatus_def
          split: option.splits)
qed

section \<open>The share code\<close>

lemma fl_half: "fl (1 / 2) = Fin (1 / 2)"
  by (simp add: fl_def flog_def round_half_even_def Let_def pow_def)

lemma digit_candidates_half: "digit_candidates (1 / 2) 1 = [(0, 5)]"
  by (simp add: digit_candidates_def fl_def flog_def round_half_even_def Let_def pow_def)

lemma shortest_digits_half: "shortest_digits (1 / 2) 17 1 = Some (0, 1, 5)"
proof -
  have "(17::nat) = Suc 16" by simp
  then show ?thesis
    by (simp only: shortest_digits.simps digit_candidates_half closest.simps option.case prod.case)
qed

lemma pos_toString_half: "pos_toString (1 / 2) = ''0.5''"
  unfolding pos_toString_def shortest_digits_half by simp

lemma newShareCode_half: "newShareCode (1 / 2) = ''5''"
  by (simp add: newShareCode_def pos_toString_half substring_def)

lemma Math_random_outcome_half: "Math_random_outcome (1 / 2)"
  by (simp add: Math_random_outcome_def fl_half)

section \<open>Signaling\<close>

lemma addIceCandidates_fields [simp]:
  "peerConnection (addIceCandidates cs a) = peerConnection a"
  "db (addIceCandidates cs a) = db a"
  "awaiting (addIceCandidates cs a) = awaiting a"
  unfolding addIceCandidates_def by (induction cs arbitrary: a) simp_all

lemma effects_addIceCandidates:
  "effects (addIceCandidates cs a) =
     effects a @ (case peerConnection a of None \<Rightarrow> [] | Some _ \<Rightarrow> map PC_addIceCandidate cs)"
  unfolding addIceCandidates_def
  by (induction cs arbitrary: a) (auto simp: effects_pc_call split: option.splits)

lemma initiator_onSnapshot_peerConnection [simp]:
  "peerConnection (initiator_onSnapshot data a) = peerConnection a"
  by (simp add: initiator_onSnapshot_def Let_def setStatus_def split: option.splits)

lemma effects_initiator_onSnapshot:
  "effects (initiator_onSnapshot data a) =
     effects a @
     (case peerConnection a of
        None \<Rightarrow> []
      | Some pc \<Rightarrow>
          (case Option.bind data answer of
             Some d \<Rightarrow> if currentRemoteDescription pc = None then [PC_setRemoteDescription d] else []
           | None \<Rightarrow> [])
          @ (case Option.bind data answerCandidates of
               Some cs \<Rightarrow> map PC_addIceCandidate cs
             | None \<Rightarrow> []))"
  by (simp add: initiator_onSnapshot_def Let_def setStatus_def effects_addIceCandidates
        effects_pc_call no_remote_description_def split: option.splits)

lemma responder_onSnapshot_peerConnection [simp]:
  "peerConnection (responder_onSnapshot code data a) = peerConnection a"
  by (simp add: responder_onSnapshot_def Let_def setStatus_def split: option.splits)

lemma effects_responder_onSnapshot:
  "effects (responder_onSnapshot code data a) =
     effects a @
     (case peerConnection a of
        None \<Rightarrow> []
      | Some pc \<Rightarrow>
          (case Option.bind data offer of
             Some d \<Rightarrow>
               if currentRemoteDescription pc = None then [PC_setRemoteDescription d]
               else (case Option.bind data offerCandidates of
                       Some cs \<Rightarrow> map PC_addIceCandidate cs
                     | None \<Rightarrow> [])
           | None \<Rightarrow> (case Option.bind data offerCandidates of
                        Some cs \<Rightarrow> map PC_addIceCandidate cs
                      | None \<Rightarrow> [])))"
  by (simp add: responder_onSnapshot_def Let_def setStatus_def effects_addIceCandidates
        effects_pc_call no_remote_description_def split: option.splits)

lemma map_filter_app: "List.map_filter f (xs @ ys) = List.map_filter f xs @ List.map_filter f ys"
  by (simp add: List.map_filter_def)

lemma map_filter_candidates [simp]:
  "List.map_filter remote_description_of (map PC_addIceCandidate cs) = []"
  "List.map_filter candidate_of (map PC_addIceCandidate cs) = cs"
  by (induction cs) (simp_all add: List.map_filter_def)

lemma remote_applications_eq:
  "effects a' = effects a @ es \<Longrightarrow>
   remote_applications a' =
     remote_applications a + length (List.map_filter remote_description_of es)"
  by (simp add: remote_applications_def map_filter_app)

text \<open>The guard: once the connection reports a remote description, no snapshot makes the
  callback call \<^verbatim>\<open>setRemoteDescription\<close> again, on either side.\<close>

lemma guard_holds_initiator:
  "\<not> no_remote_description a \<Longrightarrow>
   remote_applications (initiator_onSnapshot data a) = remote_applications a"
  by (subst remote_applications_eq[OF effects_initiator_onSnapshot])
     (auto simp: no_remote_description_def split: option.splits)

lemma guard_holds_responder:
  "\<not> no_remote_description a \<Longrightarrow>
   remote_applications (responder_onSnapshot code data a) = remote_applications a"
  by (subst remote_applications_eq[OF effects_responder_onSnapshot])
     (auto simp: no_remote_description_def split: option.splits)

lemma guard_holds_initiator_all:
  "\<not> no_remote_description a \<Longrightarrow>
   remote_applications (foldl (\<lambda>s d. initiator_onSnapshot d s) a snapshots) = remote_applications a"
proof (induction snapshots arbitrary: a)
  case Nil
  then show ?case by simp
next
  case (Cons d snapshots)
  have "\<not> no_remote_description (initiator_onSnapshot d a)"
    using Cons.prems by (simp add: no_remote_description_def)
  then show ?case
    using Cons.IH[of "initiator_onSnapshot d a"] Cons.prems guard_holds_initiator by simp
qed

lemma guard_holds_responder_all:
  "\<not> no_remote_description a \<Longrightarrow>
   remote_applications (foldl (\<lambda>s d. responder_onSnapshot code d s) a snapshots)
     = remote_applications a"
proof (induction snapshots arbitrary: a)
  case Nil
  then show ?case by simp
next
  case (Cons d snapshots)
  have "\<not> no_remote_description (responder_onSnapshot code d a)"
    using Cons.prems by (simp add: no_remote_description_def)
  then show ?case
    using Cons.IH[of "responder_onSnapshot code d a"] Cons.prems guard_holds_responder by simp
qed

text \<open>When the transport has finished applying the answer before the next snapshot
  arrives, the answer is applied once.\<close>

lemma initiator_once_when_applied:
  assumes "peerConnection a = Some pc" "currentRemoteDescription pc = None"
    "answer d1 = Some A"
  shows "remote_applications
           (initiator_onSnapshot data (remote_description_applied A (initiator_onSnapshot (Some d1) a)))
           = remote_applications a + 1"
proof -
  let ?a1 = "initiator_onSnapshot (Some d1) a"
  let ?a2 = "remote_description_applied A ?a1"
  have 1: "remote_applications ?a1 = remote_applications a + 1"
    using assms
    by (simp add: remote_applications_eq[OF effects_initiator_onSnapshot] split: option.splits)
  have 2: "remote_applications ?a2 = remote_applications ?a1"
    using assms by (simp add: remote_description_applied_def remote_applications_def)
  have "\<not> no_remote_description ?a2"
    using assms by (simp add: remote_description_applied_def no_remote_description_def)
  then show ?thesis using 1 2 guard_holds_initiator by simp
qed

text \<open>The responder's regular course: the offer arrives, the callback applies it and
  suspends; when it resumes it publishes the answer, and from then on the guard keeps every
  further snapshot from applying the offer again.\<close>

lemma responder_answers:
  assumes "peerConnection a = Some pc" "currentRemoteDescription pc = None" "awaiting a = []"
    "db a code = Some d" "offer d = Some offerDescription" "offerCandidates d = Some cs"
  shows "remote_applications
           (responder_onSnapshot code data'
             (responder_resume answerDescription (responder_onSnapshot code (Some d) a)))
           = remote_applications a + 1
       \<and> db (responder_resume answerDescription (responder_onSnapshot code (Some d) a)) code
           = Some (d\<lparr>answer := Some answerDescription, answerCandidates := Some []\<rparr>)"
proof -
  let ?a1 = "responder_onSnapshot code (Some d) a"
  let ?a2 = "responder_resume answerDescription ?a1"
  have a1: "awaiting ?a1 = [(code, Some d)]" "peerConnection ?a1 = Some pc" "db ?a1 = db a"
    using assms
    by (simp_all add: responder_onSnapshot_def Let_def no_remote_description_def setStatus_def)
  have r1: "remote_applications ?a1 = remote_applications a + 1"
    using assms
    by (simp add: remote_applications_eq[OF effects_responder_onSnapshot])
  have pc2: "peerConnection ?a2 = Some (pc\<lparr>currentRemoteDescription := Some offerDescription\<rparr>)"
    using a1 assms
    by (simp add: responder_resume_def Let_def updateDoc_def setStatus_def)
  have e2: "effects ?a2 = effects ?a1 @ [PC_createAnswer, PC_setLocalDescription answerDescription,
                                         DB_updateDoc code] @ map PC_addIceCandidate cs"
    using a1 assms
    by (simp add: responder_resume_def Let_def updateDoc_def setStatus_def
          effects_addIceCandidates)
  have r2: "remote_applications ?a2 = remote_applications ?a1"
    by (simp add: remote_applications_eq[OF e2])
  have d2: "db ?a2 code = Some (d\<lparr>answer := Some answerDescription, answerCandidates := Some []\<rparr>)"
    using a1 assms
    by (simp add: responder_resume_def Let_def updateDoc_def setStatus_def)
  have "\<not> no_remote_description ?a2"
    using pc2 by (simp add: no_remote_description_def)
  then show ?thesis
    using r1 r2 d2 guard_holds_responder by simp
qed

lemma count_list_app: "count_list (xs @ ys) x = count_list xs x + count_list ys x"
  by (induction xs) auto

lemma candidate_applications_eq:
  "effects a' = effects a @ es \<Longrightarrow>
   candidate_applications c a' =
     candidate_applications c a + count_list (List.map_filter candidate_of es) c"
  by (simp add: candidate_applications_def map_filter_app count_list_app)

lemma applied_candidates_eq:
  "effects a' = effects a @ es \<Longrightarrow>
   applied_candidates a' = applied_candidates a \<union> set (List.map_filter candidate_of es)"
  by (simp add: applied_candidates_def map_filter_app)





section \<open>Cancellation and cleanup\<close>

text \<open>
  Claim C1 says that a cancellation on the responder side leaves the rendezvous record in
  place.  \<^verbatim>\<open>handleCancel\<close> does not look at the role: the Cancel button of the receiving view
  runs it with the share code the responder submitted, so the record is deleted, the
  transport is closed and the state is reset.  The receiver's own completion path, lines
  354 to 358, does not delete the record, because the sender might not be done.
\<close>

theorem responder_cancel_deletes_record:
  assumes "code \<noteq> ''''"
  shows "db (click_Cancel (handleReceiveSubmit code a)) code = None
       \<and> effects (click_Cancel (handleReceiveSubmit code a))
           = effects a @ [PC_new, DB_deleteDoc code, PC_close]
                       @ (case dataChannel a of None \<Rightarrow> [] | Some _ \<Rightarrow> [DC_close])
       \<and> mode (click_Cancel (handleReceiveSubmit code a)) = ''idle''
       \<and> peerConnection (click_Cancel (handleReceiveSubmit code a)) = None"
  using assms
  by (simp add: click_Cancel_def handleCancel_def handleReceiveSubmit_def Let_def app_defs
        split: option.splits)

theorem responder_cancel_deletes_record_witness:
  "''482913'' \<noteq> ''''
   \<and> db (initial_app [''482913'' \<mapsto> offer_record ''offer-sdp'']) ''482913''
       = Some (offer_record ''offer-sdp'')
   \<and> db (click_Cancel (handleReceiveSubmit ''482913''
            (initial_app [''482913'' \<mapsto> offer_record ''offer-sdp'']))) ''482913'' = None
   \<and> effects (click_Cancel (handleReceiveSubmit ''482913''
            (initial_app [''482913'' \<mapsto> offer_record ''offer-sdp''])))
       = [PC_new, DB_deleteDoc ''482913'', PC_close]"
  using responder_cancel_deletes_record[of "''482913''"
          "initial_app [''482913'' \<mapsto> offer_record ''offer-sdp'']"]
  by (simp add: initial_app_def)

text \<open>The initiator's Cancel button deletes the record of the active share code.\<close>

lemma initiator_cancel_deletes_record:
  assumes "newShareCode r \<noteq> ''''"
  shows "db (click_Cancel (change_file r offerDescription (Some f) a)) (newShareCode r) = None"
  using assms
  by (simp add: click_Cancel_def handleCancel_def change_file_def handleFileChange_def Let_def
        db_resetState setDoc_def deleteDoc_def setStatus_def)

text \<open>On the receiving side the reset after a completed download leaves the store as it
  is: only \<^verbatim>\<open>handleCancel\<close> deletes there.\<close>

lemma receiver_completion_keeps_record:
  "timers a = Receiver_cleanup # ts \<Longrightarrow> db (timer_fires a) = db a"
  by (simp add: timer_fires_def Let_def db_resetState)

text \<open>
  Claim C7 says that the initiator deletes the record of its share code after it has sent
  all chunks.  The timer callback of \<^verbatim>\<open>sendFileInChunks\<close> tests the constant \<^verbatim>\<open>shareCode\<close> of
  the render in which \<^verbatim>\<open>handleFileChange\<close> was created.  A file is selected in the idle
  view, where that constant is the empty string; the new code only goes into the state
  cell.  The test therefore fails, \<^verbatim>\<open>deleteDoc\<close> is skipped, and after the reset the record
  is still there.
\<close>

theorem sender_completion_keeps_record:
  assumes "shareCode a = ''''" "timers a = []"
  shows "\<exists>a2. channel_onopen (change_file r offerDescription (Some f) a) = Some a2
           \<and> timers a2 = [Sender_cleanup '''']
           \<and> mode (timer_fires a2) = ''idle''
           \<and> db (timer_fires a2) (newShareCode r) = Some (offer_record offerDescription)"
proof -
  let ?a1 = "change_file r offerDescription (Some f) a"
  let ?a1' = "setStatus ''Connection open! Sending file...'' ?a1"
  have ch: "channel_onopen ?a1 = sendFileInChunks '''' f ?a1'"
    using assms(1)
    by (simp add: channel_onopen_def change_file_def handleFileChange_def Let_def setDoc_def
          setStatus_def)
  obtain a2 where a2: "sendFileInChunks '''' f ?a1' = Some a2"
    "timers a2 = timers ?a1' @ [Sender_cleanup '''']" "db a2 = db ?a1'"
    using sendFileInChunks_returns[of "''''" f ?a1'] by blast
  have t: "timers ?a1' = []"
    using assms(2)
    by (simp add: change_file_def handleFileChange_def Let_def setDoc_def setStatus_def)
  have d: "db ?a1' (newShareCode r) = Some (offer_record offerDescription)"
    by (simp add: change_file_def handleFileChange_def Let_def setDoc_def setStatus_def
          offer_record_def)
  have "timer_fires a2 = resetState (a2\<lparr>timers := []\<rparr>)"
    using a2(2) t by (simp add: timer_fires_def Let_def)
  then show ?thesis
    using ch a2 t d by (simp add: db_resetState mode_resetState)
qed

theorem sender_completion_keeps_record_witness:
  "shareCode (initial_app Map.empty) = '''' \<and> timers (initial_app Map.empty) = []
   \<and> (\<exists>a2. channel_onopen (change_file (1 / 2) ''offer-sdp'' (Some doc_bin) (initial_app Map.empty))
              = Some a2
           \<and> timers a2 = [Sender_cleanup '''']
           \<and> mode (timer_fires a2) = ''idle''
           \<and> db (timer_fires a2) ''5'' = Some (offer_record ''offer-sdp''))"
  using sender_completion_keeps_record[of "initial_app Map.empty" "1 / 2" "''offer-sdp''" doc_bin]
  by (simp add: initial_app_def newShareCode_half)

text \<open>The same run, step by step: the code \<open>5\<close> is generated and shown, the file goes out as
  one metadata message and one chunk, and the timer resets the page without a
  \<^verbatim>\<open>deleteDoc\<close>.\<close>

lemma readSlice_doc_bin: "readSlice CHUNK_SIZE doc_bin 0 [] = Some [[1, 2, 3]]"
  by (simp add: readSlice.simps blob_slice_def file_size_def CHUNK_SIZE_def doc_bin_def)

lemma sender_completion_trace:
  "shareCode offering_example = ''5''
   \<and> db offering_example ''5'' = Some (offer_record ''offer-sdp'')
   \<and> (case channel_onopen offering_example of
         None \<Rightarrow> False
       | Some a2 \<Rightarrow>
           timers a2 = [Sender_cleanup '''']
           \<and> status a2 = ''File sent successfully! Cleaning up...''
           \<and> db (timer_fires a2) ''5'' = Some (offer_record ''offer-sdp'')
           \<and> effects (timer_fires a2)
               = [PC_new, PC_createDataChannel ''file-transfer'', PC_createOffer,
                  PC_setLocalDescription ''offer-sdp'', DB_setDoc ''5'',
                  DC_send (Text (Some (JObj [(''name'', JStr ''doc.bin''),
                                             (''size'', JNum (Fin 3))]))),
                  DC_send (Binary [1, 2, 3]), PC_close, DC_close])"
  by (simp add: offering_example_def Let_def initial_app_def change_file_def handleFileChange_def
        newShareCode_half channel_onopen_def sendFileInChunks_def readSlice_doc_bin
        timer_fires_def offer_record_def app_defs)
     (simp add: doc_bin_def file_size_def)

section \<open>The share code is not checked\<close>

text \<open>
  Claim C10.  The share code is what \<^verbatim>\<open>substring(2, 8)\<close> finds behind the first two
  characters of the printed random number, so a random number that prints with fewer than
  six decimals gives a shorter code: 0.5 prints as \<open>0.5\<close> and gives the code \<open>5\<close>.
  \<^verbatim>\<open>handleFileChange\<close> never reads the store: whatever the store holds under the generated
  code, the code becomes the share code and \<^verbatim>\<open>setDoc\<close> puts the new record under it.
\<close>

theorem share_code_not_six_digits:
  "(\<exists>r. Math_random_outcome r \<and> length (newShareCode r) < 6)
   \<and> shareCode (handleFileChange c r offerDescription (Some f) a) = newShareCode r
   \<and> db (handleFileChange c r offerDescription (Some f) a) (newShareCode r)
       = Some (offer_record offerDescription)"
proof -
  have "Math_random_outcome (1 / 2) \<and> length (newShareCode (1 / 2)) < 6"
    by (simp add: Math_random_outcome_half newShareCode_half)
  then have "\<exists>r. Math_random_outcome r \<and> length (newShareCode r) < 6" by blast
  then show ?thesis
    by (simp add: handleFileChange_def Let_def setDoc_def setStatus_def offer_record_def)
qed

text \<open>A record that another session keeps under the same code is replaced.\<close>

lemma share_code_collision:
  "db (initial_app [''5'' \<mapsto> snapshot_2]) ''5'' = Some snapshot_2
   \<and> db (change_file (1 / 2) ''offer-sdp'' (Some doc_bin) (initial_app [''5'' \<mapsto> snapshot_2])) ''5''
       = Some (offer_record ''offer-sdp'')"
  by (simp add: initial_app_def change_file_def handleFileChange_def Let_def setDoc_def
        setStatus_def newShareCode_half offer_record_def)

section \<open>The receiver\<close>

lemma receive_text_None: "receive_text None a = (False, a)"
  by (simp add: receive_text_def)

lemma receive_text_refs:
  "fileMetadata (snd (receive_text (Some v) a)) = v"
  "receivedChunks (snd (receive_text (Some v) a)) = []"
  "receivedFileSize (snd (receive_text (Some v) a)) = 0"
  by (simp_all add: receive_text_def Let_def setStatus_def split: sum.splits)

text \<open>
  Claim C2, as the code has it.  The handler has no state guard: in a receiver that has
  recorded metadata and buffered chunks, a further text message that parses replaces the
  metadata, empties the chunk buffer and sets the byte counter to 0; the handler returns
  without an error.
\<close>

theorem duplicate_metadata_resets_buffer:
  assumes "fileMetadata a \<noteq> JNull" "receivedChunks a \<noteq> []"
  shows "fst (handleReceiveMessage StringToNumber (Text (Some metadata)) a) = Returned
       \<and> fileMetadata (snd (handleReceiveMessage StringToNumber (Text (Some metadata)) a)) = metadata
       \<and> receivedChunks (snd (handleReceiveMessage StringToNumber (Text (Some metadata)) a)) = []
       \<and> receivedFileSize (snd (handleReceiveMessage StringToNumber (Text (Some metadata)) a)) = 0"
  by (simp add: handleReceiveMessage_def receive_text_refs)

theorem duplicate_metadata_resets_buffer_witness:
  "fileMetadata receiving_example \<noteq> JNull \<and> receivedChunks receiving_example \<noteq> []
   \<and> (\<forall>StringToNumber.
        receivedChunks (snd (handleReceiveMessage StringToNumber (Text (Some doc_metadata))
                               receiving_example)) = []
        \<and> receivedFileSize (snd (handleReceiveMessage StringToNumber (Text (Some doc_metadata))
                                   receiving_example)) = 0)"
  using duplicate_metadata_resets_buffer[of receiving_example _ doc_metadata]
  by (simp add: receiving_example_def doc_metadata_def)

text \<open>The receiver of the example holds one chunk of three bytes; the sender's metadata
  message arrives a second time, and the chunk is gone.\<close>

theorem duplicate_metadata_counterexample:
  "\<forall>StringToNumber.
     receivedChunks receiving_example = [[1, 2, 3]] \<and> receivedFileSize receiving_example = 3
     \<and> handleReceiveMessage StringToNumber (Text (Some doc_metadata)) receiving_example
         = (Returned, receiving_example\<lparr>receivedChunks := [], receivedFileSize := 0,
                                        status := ''Receiving file: doc.bin''\<rparr>)"
  by (simp add: handleReceiveMessage_def receive_text_def Let_def setStatus_def
        receiving_example_def doc_metadata_def initial_app_def)

text \<open>
  Claim C3 says that a chunk is dropped while no metadata is recorded.  The handler
  appends the chunk and adds its length first, and then reads \<^verbatim>\<open>fileMetadata.current!.size\<close>:
  with \<^verbatim>\<open>fileMetadata.current\<close> still \<^verbatim>\<open>null\<close> that read throws a \<^verbatim>\<open>TypeError\<close>, which nothing
  catches, and the chunk stays in the buffer.
\<close>

theorem chunk_before_metadata_throws:
  assumes "fileMetadata a = JNull"
  shows "handleReceiveMessage StringToNumber (Binary data) a
           = (Thrown TypeError,
              a\<lparr>receivedChunks := receivedChunks a @ [data],
                receivedFileSize := receivedFileSize a + length data\<rparr>)"
  using assms by (simp add: handleReceiveMessage_def receive_chunk_def Let_def)

theorem chunk_before_metadata_throws_witness:
  "fileMetadata (initial_app Map.empty) = JNull
   \<and> (\<forall>StringToNumber.
        handleReceiveMessage StringToNumber (Binary [1, 2, 3]) (initial_app Map.empty)
          = (Thrown TypeError,
             (initial_app Map.empty)\<lparr>receivedChunks := [[1, 2, 3]], receivedFileSize := 3\<rparr>))"
  using chunk_before_metadata_throws[of "initial_app Map.empty" _ "[1, 2, 3]"]
  by (simp add: initial_app_def)

text \<open>
  Claim C9, as the code has it.  A text message on which \<^verbatim>\<open>JSON.parse\<close> throws is ignored:
  the state stays as it is.  No text message makes the handler throw.  A text message that
  \<^verbatim>\<open>JSON.parse\<close> accepts is recorded as the metadata whatever its structure, and the chunk
  buffer and the byte counter are reset.
\<close>

theorem text_message_tolerance:
  "handleReceiveMessage StringToNumber (Text None) a = (Returned, a)
   \<and> fst (handleReceiveMessage StringToNumber (Text parsed) a) = Returned
   \<and> fileMetadata (snd (handleReceiveMessage StringToNumber (Text (Some v)) a)) = v
   \<and> receivedChunks (snd (handleReceiveMessage StringToNumber (Text (Some v)) a)) = []
   \<and> receivedFileSize (snd (handleReceiveMessage StringToNumber (Text (Some v)) a)) = 0"
  by (simp add: handleReceiveMessage_def receive_text_None receive_text_refs)

text \<open>The text \<^verbatim>\<open>{}\<close> parses to an object without \<^verbatim>\<open>name\<close> and \<^verbatim>\<open>size\<close>; the text \<^verbatim>\<open>null\<close>
  parses to \<^verbatim>\<open>null\<close>.  Either one replaces the metadata of the example receiver and
  discards its buffered chunk.\<close>

theorem malformed_metadata_counterexample:
  "\<forall>StringToNumber.
     handleReceiveMessage StringToNumber (Text (Some (JObj []))) receiving_example
       = (Returned, receiving_example\<lparr>fileMetadata := JObj [], receivedChunks := [],
                                      receivedFileSize := 0,
                                      status := ''Receiving file: undefined''\<rparr>)
     \<and> handleReceiveMessage StringToNumber (Text (Some JNull)) receiving_example
       = (Returned, receiving_example\<lparr>fileMetadata := JNull, receivedChunks := [],
                                      receivedFileSize := 0\<rparr>)"
  by (simp add: handleReceiveMessage_def receive_text_def Let_def setStatus_def
        receiving_example_def doc_metadata_def initial_app_def)

text \<open>A transfer in order: metadata, then the chunks.  The last chunk completes the file,
  which is handed to the browser under the announced name, and the reset is scheduled.\<close>

lemma in_order_transfer_delivers_file:
  "(let a0 = ondatachannel ''file-transfer''
               (handleReceiveSubmit ''482913'' (initial_app Map.empty));
        a1 = snd (handleReceiveMessage StringToNumber
                    (Text (Some (JObj [(''name'', JStr ''doc.bin''), (''size'', JNum (Fin 3))]))) a0);
        a2 = snd (handleReceiveMessage StringToNumber (Binary [1, 2]) a1);
        a3 = snd (handleReceiveMessage StringToNumber (Binary [3]) a2)
    in receivedFileSize a2 = 2 \<and> timers a2 = []
       \<and> effects a3 = [PC_new, Download ''doc.bin'' [1, 2, 3]]
       \<and> timers a3 = [Receiver_cleanup])"
  by (simp add: Let_def handleReceiveMessage_def receive_text_def receive_chunk_def setStatus_def
        ondatachannel_def handleReceiveSubmit_def initial_app_def Blob_def)

text \<open>An empty file arrives as its metadata and one empty chunk.  The percentage for that
  chunk is computed as 0 / 0; the comparison of the sizes then completes the transfer.\<close>

lemma empty_file_transfer:
  "(let a1 = snd (handleReceiveMessage StringToNumber
                    (Text (Some (JObj [(''name'', JStr ''empty.bin''), (''size'', JNum (Fin 0))])))
                    (initial_app Map.empty))
    in progress (Fin (real (receivedFileSize a1 + length ([] :: ArrayBuffer)))) (Fin 0) = NaN
       \<and> fst (handleReceiveMessage StringToNumber (Binary []) a1) = Returned
       \<and> effects (snd (handleReceiveMessage StringToNumber (Binary []) a1))
           = [Download ''empty.bin'' []])"
  by (simp add: Let_def handleReceiveMessage_def receive_text_def receive_chunk_def setStatus_def
        initial_app_def Blob_def progress_def)

section \<open>Descriptions and candidates\<close>

lemma offering_example_connection:
  "peerConnection offering_example = Some \<lparr>currentRemoteDescription = None\<rparr>
   \<and> effects offering_example
       = [PC_new, PC_createDataChannel ''file-transfer'', PC_createOffer,
          PC_setLocalDescription ''offer-sdp'', DB_setDoc ''5'']"
  by (simp add: offering_example_def change_file_def handleFileChange_def Let_def initial_app_def
        newShareCode_half setDoc_def setStatus_def)




text \<open>The exchange does not suppress the repeat itself: with a connection present, every
  delivery passes each candidate of the snapshot to \<^verbatim>\<open>addIceCandidate\<close>, so after two snapshots
  a candidate has been passed once for every occurrence in either of them.\<close>

lemma candidate_calls_per_snapshot:
  assumes "peerConnection a \<noteq> None"
  shows "(answerCandidates d1 = Some cs1 \<and> answerCandidates d2 = Some cs2 \<longrightarrow>
            candidate_applications c (initiator_onSnapshot (Some d2) (initiator_onSnapshot (Some d1) a))
              = candidate_applications c a + count_list cs1 c + count_list cs2 c
          \<and> applied_candidates (initiator_onSnapshot (Some d2) (initiator_onSnapshot (Some d1) a))
              = applied_candidates a \<union> set cs1 \<union> set cs2)
       \<and> (\<not> no_remote_description a \<and> offerCandidates d1 = Some cs1 \<and> offerCandidates d2 = Some cs2 \<longrightarrow>
            candidate_applications c
              (responder_onSnapshot code (Some d2) (responder_onSnapshot code (Some d1) a))
              = candidate_applications c a + count_list cs1 c + count_list cs2 c
          \<and> applied_candidates
              (responder_onSnapshot code (Some d2) (responder_onSnapshot code (Some d1) a))
              = applied_candidates a \<union> set cs1 \<union> set cs2)"
proof (intro conjI impI)
  assume h: "answerCandidates d1 = Some cs1 \<and> answerCandidates d2 = Some cs2"
  show "candidate_applications c (initiator_onSnapshot (Some d2) (initiator_onSnapshot (Some d1) a))
          = candidate_applications c a + count_list cs1 c + count_list cs2 c"
    using assms h
    by (auto simp: candidate_applications_eq[OF effects_initiator_onSnapshot]
          map_filter_app List.map_filter_simps split: option.splits)
  show "applied_candidates (initiator_onSnapshot (Some d2) (initiator_onSnapshot (Some d1) a))
          = applied_candidates a \<union> set cs1 \<union> set cs2"
    using assms h
    by (auto simp: applied_candidates_eq[OF effects_initiator_onSnapshot]
          map_filter_app List.map_filter_simps split: option.splits)
next
  assume h: "\<not> no_remote_description a \<and> offerCandidates d1 = Some cs1 \<and> offerCandidates d2 = Some cs2"
  show "candidate_applications c
          (responder_onSnapshot code (Some d2) (responder_onSnapshot code (Some d1) a))
          = candidate_applications c a + count_list cs1 c + count_list cs2 c"
    using assms h
    by (auto simp: candidate_applications_eq[OF effects_responder_onSnapshot]
          map_filter_app List.map_filter_simps no_remote_description_def split: option.splits)
  show "applied_candidates
          (responder_onSnapshot code (Some d2) (responder_onSnapshot code (Some d1) a))
          = applied_candidates a \<union> set cs1 \<union> set cs2"
    using assms h
    by (auto simp: applied_candidates_eq[OF effects_responder_onSnapshot]
          map_filter_app List.map_filter_simps no_remote_description_def split: option.splits)
qed

text \<open>Two overlapping snapshots, the answer applied by the transport in between:
  \<open>candidate-1\<close> is in both and is passed to \<^verbatim>\<open>addIceCandidate\<close> twice.\<close>

lemma duplicate_candidate_calls:
  "effects (initiator_onSnapshot (Some snapshot_2)
             (remote_description_applied ''answer-sdp''
               (initiator_onSnapshot (Some snapshot_1) offering_example)))
     = effects offering_example
       @ [PC_setRemoteDescription ''answer-sdp'', PC_addIceCandidate ''candidate-1'',
          PC_addIceCandidate ''candidate-1'', PC_addIceCandidate ''candidate-2'']
   \<and> candidate_applications ''candidate-1''
        (initiator_onSnapshot (Some snapshot_2)
          (remote_description_applied ''answer-sdp''
            (initiator_onSnapshot (Some snapshot_1) offering_example))) = 2"
  by (simp add: effects_initiator_onSnapshot remote_description_applied_def
        offering_example_connection snapshot_1_def snapshot_2_def candidate_applications_def
        List.map_filter_simps)

text \<open>
  Claim C8 says that the remote description is applied at most once.  The guard reads
  \<^verbatim>\<open>currentRemoteDescription\<close>, which the connection sets only when it has finished
  applying a description; the initiator does not await \<^verbatim>\<open>setRemoteDescription\<close>, and the
  responder's callback is suspended at its \<^verbatim>\<open>await\<close>.  A second snapshot that arrives
  before that moment passes the guard again: with two snapshots that carry the
  description, \<^verbatim>\<open>setRemoteDescription\<close> is called twice, on either side.
\<close>

theorem remote_description_applied_twice:
  assumes "peerConnection a = Some pc" "currentRemoteDescription pc = None"
  shows "(answer d1 = Some A \<and> answer d2 = Some A \<longrightarrow>
            remote_applications (initiator_onSnapshot (Some d2) (initiator_onSnapshot (Some d1) a))
              = remote_applications a + 2)
       \<and> (offer d1 = Some A \<and> offer d2 = Some A \<longrightarrow>
            remote_applications
              (responder_onSnapshot code (Some d2) (responder_onSnapshot code (Some d1) a))
              = remote_applications a + 2)"
  using assms
  by (simp add: remote_applications_eq[OF effects_initiator_onSnapshot]
        remote_applications_eq[OF effects_responder_onSnapshot] List.map_filter_simps
        split: option.splits)

theorem remote_description_applied_twice_witness:
  "peerConnection offering_example = Some \<lparr>currentRemoteDescription = None\<rparr>
   \<and> currentRemoteDescription \<lparr>currentRemoteDescription = None\<rparr> = None
   \<and> answer snapshot_1 = Some ''answer-sdp'' \<and> answer snapshot_2 = Some ''answer-sdp''
   \<and> remote_applications offering_example = 0
   \<and> remote_applications
        (initiator_onSnapshot (Some snapshot_2) (initiator_onSnapshot (Some snapshot_1) offering_example))
       = 2"
  using remote_description_applied_twice[of offering_example
          "\<lparr>currentRemoteDescription = None\<rparr>" snapshot_1 "''answer-sdp''" snapshot_2]
  by (simp add: offering_example_connection snapshot_1_def snapshot_2_def remote_applications_def
        List.map_filter_simps)

section \<open>A whole transfer\<close>

text \<open>The sender's side: with a channel, \<^verbatim>\<open>sendFileInChunks\<close> hands the metadata message and
  then the chunks of the read loop to \<^verbatim>\<open>send\<close>, in this order.\<close>

lemma sendFileInChunks_messages:
  assumes "dataChannel a \<noteq> None"
  shows "\<exists>chunks a'. readSlice CHUNK_SIZE f 0 [] = Some chunks
           \<and> sendFileInChunks c f a = Some a'
           \<and> effects a' = effects a
                 @ map DC_send (Text (Some (metadata_of f)) # map Binary chunks)"
proof -
  obtain chunks where ch: "readSlice CHUNK_SIZE f 0 [] = Some ([] @ chunks)"
    using readSlice_from[OF CHUNK_SIZE_pos, of f 0 "[]"] by blast
  show ?thesis
    using assms ch
    by (auto simp: sendFileInChunks_def Let_def foldl_send setStatus_def metadata_of_def
          effects_dc_call comp_def split: option.splits)
qed

lemma receive_chunk_more:
  assumes "fileMetadata b = metadata_of f" "receivedFileSize b + length c \<noteq> file_size f"
  shows "\<exists>st. snd (handleReceiveMessage S (Binary c) b)
           = b\<lparr>receivedChunks := receivedChunks b @ [c],
               receivedFileSize := receivedFileSize b + length c, status := st\<rparr>"
proof -
  have "snd (handleReceiveMessage S (Binary c) b)
           = b\<lparr>receivedChunks := receivedChunks b @ [c],
               receivedFileSize := receivedFileSize b + length c,
               status := ''Downloading... ''
                 @ Number_toString (progress (Fin (real (receivedFileSize b + length c)))
                                      (Fin (real (file_size f)))) @ ''%''\<rparr>"
    using assms
    by (simp add: handleReceiveMessage_def receive_chunk_def Let_def metadata_of_def setStatus_def)
  then show ?thesis by blast
qed

lemma receive_chunk_last:
  assumes "fileMetadata b = metadata_of f" "receivedFileSize b + length c = file_size f"
  shows "snd (handleReceiveMessage S (Binary c) b)
           = b\<lparr>receivedChunks := receivedChunks b @ [c],
               receivedFileSize := file_size f,
               status := ''File downloaded! Cleaning up...'',
               effects := effects b @ [Download (name f) (Blob (receivedChunks b @ [c]))],
               timers := timers b @ [Receiver_cleanup]\<rparr>"
  using assms
  by (simp add: handleReceiveMessage_def receive_chunk_def Let_def metadata_of_def setStatus_def)

lemma deliver_chunks_from:
  assumes "0 < cs"
  shows "off \<le> file_size f \<Longrightarrow> fileMetadata b = metadata_of f \<Longrightarrow> receivedFileSize b = off \<Longrightarrow>
         Blob (receivedChunks b) = take off (content f) \<Longrightarrow>
         \<exists>chunks. readSlice cs f off sent = Some (sent @ chunks)
           \<and> effects (deliver S (map Binary chunks) b)
               = effects b @ [Download (name f) (content f)]
           \<and> timers (deliver S (map Binary chunks) b) = timers b @ [Receiver_cleanup]"
proof (induction "file_size f - off" arbitrary: off sent b rule: less_induct)
  case less
  let ?r = "blob_slice (content f) off (off + cs)"
  have lr: "length ?r = min cs (file_size f - off)"
    by (simp add: blob_slice_eq file_size_def)
  show ?case
  proof (cases "off + length ?r < file_size f")
    case False
    then have short: "file_size f - off \<le> cs"
      unfolding lr by (simp add: min_def split: if_splits)
    have r: "?r = drop off (content f)"
      using short by (simp add: blob_slice_eq file_size_def)
    have run: "readSlice cs f off sent = Some (sent @ [?r])"
      using False by (subst readSlice.simps) (simp add: Let_def)
    have tot: "receivedFileSize b + length ?r = file_size f"
      using less.prems(1,3) r by (simp add: file_size_def)
    have "Blob (receivedChunks b @ [?r]) = content f"
      using less.prems(4) r by (simp add: Blob_def)
    then have "snd (handleReceiveMessage S (Binary ?r) b)
           = b\<lparr>receivedChunks := receivedChunks b @ [?r],
               receivedFileSize := file_size f,
               status := ''File downloaded! Cleaning up...'',
               effects := effects b @ [Download (name f) (content f)],
               timers := timers b @ [Receiver_cleanup]\<rparr>"
      using receive_chunk_last[OF less.prems(2) tot, of S] by simp
    then show ?thesis
      using run by (intro exI[of _ "[?r]"]) (simp add: deliver_def)
  next
    case True
    then have long: "cs < file_size f - off"
      unfolding lr by (simp add: min_def split: if_splits)
    have len: "length ?r = cs"
      using long unfolding lr by simp
    have step: "readSlice cs f off sent = readSlice cs f (off + cs) (sent @ [?r])"
      using True len by (subst readSlice.simps) (simp add: Let_def)
    have ne: "receivedFileSize b + length ?r \<noteq> file_size f"
      using long len less.prems(3) by simp
    obtain st where b': "snd (handleReceiveMessage S (Binary ?r) b)
           = b\<lparr>receivedChunks := receivedChunks b @ [?r],
               receivedFileSize := receivedFileSize b + length ?r, status := st\<rparr>"
      using receive_chunk_more[OF less.prems(2) ne, of S] by blast
    let ?b' = "snd (handleReceiveMessage S (Binary ?r) b)"
    have m: "file_size f - (off + cs) < file_size f - off"
      using long assms by simp
    have p1: "off + cs \<le> file_size f" using long by simp
    have p2: "fileMetadata ?b' = metadata_of f" using b' less.prems(2) by simp
    have p3: "receivedFileSize ?b' = off + cs" using b' less.prems(3) len by simp
    have "take off (content f) @ take cs (drop off (content f)) = take (off + cs) (content f)"
      by (simp add: take_add)
    then have p4: "Blob (receivedChunks ?b') = take (off + cs) (content f)"
      using b' less.prems(4) by (simp add: Blob_def blob_slice_eq)
    from less.hyps[OF m p1 p2 p3 p4, of "sent @ [?r]"] obtain chunks where
      ch: "readSlice cs f (off + cs) (sent @ [?r]) = Some ((sent @ [?r]) @ chunks)"
        "effects (deliver S (map Binary chunks) ?b') = effects ?b' @ [Download (name f) (content f)]"
        "timers (deliver S (map Binary chunks) ?b') = timers ?b' @ [Receiver_cleanup]"
      by blast
    have "effects ?b' = effects b" "timers ?b' = timers b" using b' by simp_all
    then show ?thesis
      using step ch by (intro exI[of _ "?r # chunks"]) (simp add: deliver_def)
  qed
qed

text \<open>
  The receiver's side of a whole transfer.  Whatever the receiver held before, the metadata
  message of a file followed by the chunks of the read loop, in order, ends with the file
  handed to the browser under its name, byte for byte, and with the reset scheduled.
\<close>

lemma transfer_delivers_file:
  "\<exists>chunks. readSlice CHUNK_SIZE f 0 [] = Some chunks
     \<and> effects (deliver S (Text (Some (metadata_of f)) # map Binary chunks) b)
         = effects b @ [Download (name f) (content f)]
     \<and> timers (deliver S (Text (Some (metadata_of f)) # map Binary chunks) b)
         = timers b @ [Receiver_cleanup]"
proof -
  let ?b1 = "snd (handleReceiveMessage S (Text (Some (metadata_of f))) b)"
  have b1: "?b1 = b\<lparr>fileMetadata := metadata_of f, receivedChunks := [], receivedFileSize := 0,
                     status := ''Receiving file: '' @ name f\<rparr>"
    by (simp add: handleReceiveMessage_def receive_text_def Let_def metadata_of_def setStatus_def)
  have "\<exists>chunks. readSlice CHUNK_SIZE f 0 [] = Some ([] @ chunks)
           \<and> effects (deliver S (map Binary chunks) ?b1)
               = effects ?b1 @ [Download (name f) (content f)]
           \<and> timers (deliver S (map Binary chunks) ?b1) = timers ?b1 @ [Receiver_cleanup]"
    by (rule deliver_chunks_from[OF CHUNK_SIZE_pos]) (simp_all add: b1 Blob_def)
  then show ?thesis
    by (simp add: deliver_def b1)
qed

end
